theory Spec2Isabelle
  imports Main
begin

section \<open>Python strings\<close>

text \<open>
  A Python \<open>str\<close> is modelled as an Isabelle \<open>string\<close>: one \<open>char\<close> per code point, for
  the code points below 256 (ASCII and the Latin-1 supplement).
\<close>

definition startswith :: "string \<Rightarrow> string \<Rightarrow> bool" where
  \<comment> \<open>\<open>s.startswith(p)\<close>\<close>
  "startswith s p = (take (length p) s = p)"

definition endswith :: "string \<Rightarrow> string \<Rightarrow> bool" where
  \<comment> \<open>\<open>s.endswith(p)\<close>\<close>
  "endswith s p = (length p \<le> length s \<and> drop (length s - length p) s = p)"

fun is_substr :: "string \<Rightarrow> string \<Rightarrow> bool" where
  \<comment> \<open>\<open>p in s\<close> for two strings\<close>
  "is_substr p [] = (p = [])"
| "is_substr p (c # cs) = (startswith (c # cs) p \<or> is_substr p cs)"

function str_replace :: "string \<Rightarrow> string \<Rightarrow> string \<Rightarrow> string" where
  \<comment> \<open>\<open>s.replace(old, new)\<close>: the occurrences of \<open>old\<close> found scanning from the left, none
      overlapping another; an empty \<open>old\<close> matches before every character and at the end\<close>
  "str_replace old new s =
     (if old = [] then new @ concat (map (\<lambda>c. c # new) s)
      else if s = [] then []
      else if startswith s old then new @ str_replace old new (drop (length old) s)
      else hd s # str_replace old new (tl s))"
  by pat_completeness auto
termination
  by (relation "measure (\<lambda>(old, new, s). length s)") auto

declare str_replace.simps [simp del]

section \<open>Errors\<close>

text \<open>The exceptions the modelled functions raise; \<open>ValueError\<close> carries its arguments.\<close>

datatype error =
    ValueError "string list"
  | IndexError
  | TypeError
  | KeyError
  | AttributeError
  | EvalError

section \<open>The override arguments of the render command\<close>

text \<open>
  \<open>key_and_values[key] = value\<close> on a dictionary kept as an association list in insertion
  order: an existing key keeps its place and gets the new value, a new key goes last.
\<close>

fun dict_set :: "'k \<Rightarrow> 'v \<Rightarrow> ('k \<times> 'v) list \<Rightarrow> ('k \<times> 'v) list" where
  "dict_set k v [] = [(k, v)]"
| "dict_set k v ((k', v') # kvs) =
     (if k' = k then (k, v) # kvs else (k', v') # dict_set k v kvs)"

definition odd_arguments_message :: string where
  "odd_arguments_message =
     ''There is a problem with the extra arguments! Each key should have a corresponding value.''"

definition key_message :: "string \<Rightarrow> string" where
  "key_message key = ''The key ('' @ key @ '') should start with double dashes!''"

text \<open>
  The loop \<open>for i in range(0, len(args), 2)\<close> of \<open>parse_render_command_override_arguments\<close>,
  entered only with an even number of arguments: it takes a key and its value at a time.
\<close>

fun override_loop ::
  "string list \<Rightarrow> (string \<times> string) list \<Rightarrow> error + (string \<times> string) list" where
  "override_loop (key # val # rest) key_and_values =
     (if \<not> startswith key ''--'' then Inl (ValueError [key_message key])
      else override_loop rest (dict_set (str_replace ''--'' '''' key) val key_and_values))"
| "override_loop [key] key_and_values = Inr key_and_values"
| "override_loop [] key_and_values = Inr key_and_values"

definition parse_render_command_override_arguments ::
  "string list \<Rightarrow> error + (string \<times> string) list" where
  "parse_render_command_override_arguments args =
     (if length args mod 2 \<noteq> 0 then Inl (ValueError [odd_arguments_message])
      else override_loop args [])"

text \<open>
  What "removing every occurrence of \<open>--\<close>" means, written on its own: reading from the left,
  two dashes in a row are dropped, any other character is kept.
\<close>

fun without_double_dashes :: "string \<Rightarrow> string" where
  "without_double_dashes (a # b # cs) =
     (if a = CHR ''-'' \<and> b = CHR ''-'' then without_double_dashes cs
      else a # without_double_dashes (b # cs))"
| "without_double_dashes [a] = [a]"
| "without_double_dashes [] = []"

text \<open>The keys of the arguments (those at even positions) and the pairs they form.\<close>

fun argument_pairs :: "string list \<Rightarrow> (string \<times> string) list" where
  "argument_pairs (key # val # rest) = (key, val) # argument_pairs rest"
| "argument_pairs [key] = []"
| "argument_pairs [] = []"

section \<open>The number of steps of a run\<close>

text \<open>
  The options of the render command that \<open>run_rendercv_with_printer\<close> reads to count its steps.
\<close>

record render_flags =
  dont_generate_png :: bool
  dont_generate_markdown :: bool
  dont_generate_html :: bool

definition number_of_steps :: "render_flags \<Rightarrow> int" where
  "number_of_steps settings =
     (let n = 6;
          n = (if dont_generate_png settings then n - 1 else n);
          n = (if dont_generate_markdown settings then n - 2
               else if dont_generate_html settings then n - 1 else n)
      in n)"

text \<open>The count as the specification words it.\<close>

definition spec_step_count :: "bool \<Rightarrow> bool \<Rightarrow> bool \<Rightarrow> int" where
  "spec_step_count png_disabled markdown_disabled html_disabled =
     6 - (if png_disabled then 1 else 0)
       - (if markdown_disabled then 2 else 0)
       - (if \<not> markdown_disabled \<and> html_disabled then 1 else 0)"

section \<open>Numbers as text\<close>

definition digit_char :: "nat \<Rightarrow> char" where
  "digit_char d = ''0123456789'' ! d"

function str_of_nat :: "nat \<Rightarrow> string" where
  \<comment> \<open>\<open>str(n)\<close> for a non-negative \<open>int\<close>\<close>
  "str_of_nat n =
     (if n < 10 then [digit_char n] else str_of_nat (n div 10) @ [digit_char (n mod 10)])"
  by pat_completeness auto
termination
  by (relation "measure id") auto

declare str_of_nat.simps [simp del]

definition str_of_int :: "int \<Rightarrow> string" where
  \<comment> \<open>\<open>str(i)\<close> for an \<open>int\<close>\<close>
  "str_of_int i = (if i < 0 then CHR ''-'' # str_of_nat (nat (- i)) else str_of_nat (nat i))"

section \<open>Paths and the copies of the artifacts\<close>

text \<open>
  A \<open>pathlib.Path\<close> is modelled by the list of its components below its anchor; the last
  component is its name. \<open>name\<close>, \<open>parent\<close>, \<open>stem\<close> and \<open>suffix\<close> are pathlib's: the
  suffix starts at the last dot of the name, unless that dot is the first or the last
  character of the name.
\<close>

type_synonym path = "string list"

definition path_name :: "path \<Rightarrow> string" where
  "path_name p = (if p = [] then [] else last p)"

definition path_parent :: "path \<Rightarrow> path" where
  "path_parent p = butlast p"

fun rfind :: "char \<Rightarrow> string \<Rightarrow> nat option" where
  \<comment> \<open>\<open>s.rfind(c)\<close>, with \<open>None\<close> for \<open>-1\<close>\<close>
  "rfind c [] = None"
| "rfind c (x # xs) =
     (case rfind c xs of Some i \<Rightarrow> Some (Suc i) | None \<Rightarrow> if x = c then Some 0 else None)"

definition path_stem :: "path \<Rightarrow> string" where
  "path_stem p =
     (let name = path_name p in
      case rfind (CHR ''.'') name of
        Some i \<Rightarrow> if 0 < i \<and> i < length name - 1 then take i name else name
      | None \<Rightarrow> name)"

definition path_suffix :: "path \<Rightarrow> string" where
  "path_suffix p =
     (let name = path_name p in
      case rfind (CHR ''.'') name of
        Some i \<Rightarrow> if 0 < i \<and> i < length name - 1 then drop i name else []
      | None \<Rightarrow> [])"

text \<open>The argument \<open>paths\<close> of \<open>copy_files\<close> is one path or a list of paths.\<close>

datatype paths_arg = OnePath path | PathList "path list"

definition png_path_with_page_number :: "path \<Rightarrow> nat \<Rightarrow> path" where
  "png_path_with_page_number new_path number =
     path_parent new_path @ [path_stem new_path @ ''_'' @ str_of_nat number @ ''.png'']"

text \<open>
  \<open>copy_files\<close> returns the calls of \<open>shutil.copy2\<close> it makes, in order, each as the pair of
  the source and the destination.
\<close>

definition copy_files :: "paths_arg \<Rightarrow> path \<Rightarrow> (path \<times> path) list" where
  "copy_files paths new_path =
     (let paths = (case paths of OnePath p \<Rightarrow> [p] | PathList ps \<Rightarrow> ps) in
      if length paths = 1 then [(paths ! 0, new_path)]
      else map (\<lambda>(i, file_path). (file_path, png_path_with_page_number new_path (i + 1)))
             (enumerate 0 paths))"

section \<open>Configuration trees\<close>

text \<open>
  The values read from a YAML file or built by \<open>eval\<close>: \<open>None\<close>, booleans, integers, strings,
  lists, and dictionaries with string keys, kept as association lists in insertion order.
\<close>

datatype tree =
    TNone
  | TBool bool
  | TInt int
  | TStr string
  | TList "tree list"
  | TDict "(string \<times> tree) list"

type_synonym dict = "(string \<times> tree) list"

fun is_container :: "tree \<Rightarrow> bool" where
  \<comment> \<open>\<open>isinstance(x, dict | list)\<close>\<close>
  "is_container (TList xs) = True"
| "is_container (TDict kvs) = True"
| "is_container t = False"

fun join_with :: "string \<Rightarrow> string list \<Rightarrow> string" where
  \<comment> \<open>\<open>sep.join(parts)\<close>\<close>
  "join_with sep [] = []"
| "join_with sep [p] = p"
| "join_with sep (p # q # ps) = p @ sep @ join_with sep (q # ps)"

section \<open>The design options and the themes\<close>

definition char_is_ascii_alnum :: "char \<Rightarrow> bool" where
  \<comment> \<open>the character class \<open>[A-Za-z0-9]\<close>\<close>
  "char_is_ascii_alnum c =
     (let n = (of_char c :: nat) in
      (48 \<le> n \<and> n \<le> 57) \<or> (65 \<le> n \<and> n \<le> 90) \<or> (97 \<le> n \<and> n \<le> 122))"

definition char_isalnum :: "char \<Rightarrow> bool" where
  \<comment> \<open>\<open>c.isalnum()\<close> for a code point below 256: the ASCII letters and digits, and in the
      Latin-1 supplement the letters (U+00AA, U+00B5, U+00BA, U+00C0 to U+00FF but for the
      signs U+00D7 and U+00F7) and the numeric characters (the superscripts U+00B2, U+00B3,
      U+00B9 and the fractions U+00BC to U+00BE)\<close>
  "char_isalnum c =
     (let n = (of_char c :: nat) in
      char_is_ascii_alnum c \<or> n = 170 \<or> n = 178 \<or> n = 179 \<or> n = 181 \<or> n = 185 \<or> n = 186
      \<or> (188 \<le> n \<and> n \<le> 190) \<or> (192 \<le> n \<and> n \<le> 214) \<or> (216 \<le> n \<and> n \<le> 246)
      \<or> (248 \<le> n \<and> n \<le> 255))"

definition str_isalnum :: "string \<Rightarrow> bool" where
  \<comment> \<open>\<open>s.isalnum()\<close>: at least one character, and every character alphanumeric\<close>
  "str_isalnum s = (s \<noteq> [] \<and> list_all char_isalnum s)"

text \<open>The pattern of the specification, \<open>^[A-Za-z0-9]+$\<close>, matched against the whole name.\<close>

definition matches_ascii_alnum :: "string \<Rightarrow> bool" where
  "matches_ascii_alnum s = (s \<noteq> [] \<and> list_all char_is_ascii_alnum s)"

text \<open>An argument of an exception: a string, or a tuple of strings.\<close>

datatype arg = Str string | Tup "string list"

datatype design_error =
    ValueErrorArgs "arg list"  \<comment> \<open>\<open>ValueError(*args)\<close>\<close>
  | DesignKeyError             \<comment> \<open>\<open>design["theme"]\<close> without that key\<close>
  | DesignTypeError            \<comment> \<open>\<open>design\<close> is not a dictionary, or the theme is not hashable\<close>
  | DesignAttributeError       \<comment> \<open>the loaded module has no class of the expected name\<close>
  | ValidationError string     \<comment> \<open>raised by a data model on the options it is given\<close>

text \<open>
  A theme's data model is a constructor from the design's dictionary: it returns the model, or
  the failures of its validation. \<open>exec_module\<close> on the theme's \<open>__init__.py\<close> gives a module,
  looked up by attribute name, or fails on a syntax or an import error.
\<close>

type_synonym 'm data_model = "dict \<Rightarrow> string + 'm"

datatype 'm load_result =
    SyntaxError
  | ImportError
  | Module "string \<Rightarrow> 'm data_model option"

text \<open>
  What the function takes from its surroundings: the directory of the input file, the files
  that exist (a path is looked up from the working directory), what loading a module from a
  path gives, and \<open>str.capitalize\<close>.
\<close>

record 'm theme_env =
  input_file_directory :: path
  path_exists :: "path \<Rightarrow> path \<Rightarrow> bool"
  exec_module :: "path \<Rightarrow> path \<Rightarrow> 'm load_result"
  capitalize :: "string \<Rightarrow> string"

text \<open>
  The argument \<open>design\<close>: an instance of a built-in theme's data model, or the dictionary read
  from the input. The result: a data model's instance, or the class made on the spot for a
  custom theme that has no \<open>__init__.py\<close>.
\<close>

datatype 'm design_arg = Validated 'm | Unvalidated tree

datatype 'm theme_data = Model 'm | ThemeOptionsAreNotProvided string

fun py_str :: "tree \<Rightarrow> string" where
  \<comment> \<open>\<open>str(x)\<close> for a value that is no list and no dictionary\<close>
  "py_str TNone = ''None''"
| "py_str (TBool b) = (if b then ''True'' else ''False'')"
| "py_str (TInt i) = str_of_int i"
| "py_str (TStr s) = s"
| "py_str (TList xs) = []"
| "py_str (TDict kvs) = []"

definition path_str :: "path \<Rightarrow> string" where
  "path_str p = join_with ''/'' p"

definition theme_name_message :: string where
  "theme_name_message = ''The custom theme name should only contain letters and digits.''"

definition theme_folder_message :: "path \<Rightarrow> string" where
  "theme_folder_message custom_theme_folder =
     ''The custom theme folder '' @ [CHR 0x60] @ path_str custom_theme_folder @ [CHR 0x60]
     @ '' does not exist. It should be in the working directory as the input file.''"

definition theme_file_message :: "string \<Rightarrow> path \<Rightarrow> string" where
  "theme_file_message file custom_theme_folder =
     ''You provided a custom theme, but the file '' @ [CHR 0x60] @ file @ [CHR 0x60]
     @ '' is not found in the folder '' @ [CHR 0x60] @ path_str custom_theme_folder
     @ [CHR 0x60] @ ''.''"

definition theme_syntax_message :: "string \<Rightarrow> string" where
  "theme_syntax_message theme_name =
     ''The custom theme '' @ theme_name @ [CHR 0x27]
     @ ''s __init__.py file has a syntax error. Please fix it.''"

definition theme_import_message :: "string \<Rightarrow> string" where
  "theme_import_message theme_name =
     ''The custom theme '' @ theme_name @ [CHR 0x27]
     @ ''s __init__.py file has an import error. If you have copy-pasted RenderCV''
     @ [CHR 0x27] @ ''s built-in themes, make sure to update the import statements (e.g., ''
     @ [CHR 0x22] @ ''from . import'' @ [CHR 0x22] @ '' to '' @ [CHR 0x22]
     @ ''from rendercv.themes import'' @ [CHR 0x22] @ '').''"

definition required_files :: "string list \<Rightarrow> string list" where
  "required_files available_entry_type_names =
     [''SectionBeginning.j2.tex'', ''SectionEnding.j2.tex'', ''Preamble.j2.tex'',
      ''Header.j2.tex'']
     @ map (\<lambda>entry_type_name. entry_type_name @ ''.j2.tex'') available_entry_type_names"

definition construct :: "'m data_model \<Rightarrow> dict \<Rightarrow> design_error + 'm theme_data" where
  \<comment> \<open>\<open>ThemeDataModel(**design)\<close>\<close>
  "construct ThemeDataModel design =
     (case ThemeDataModel design of
        Inl failures \<Rightarrow> Inl (ValidationError failures)
      | Inr m \<Rightarrow> Inr (Model m))"

text \<open>
  The part of \<open>validate_design_options\<close> for a custom theme, after the test of its name. It
  never changes the working directory; on its normal return it calls
  \<open>os.chdir(original_working_directory)\<close>.
\<close>

definition validate_custom_theme ::
  "'m theme_env \<Rightarrow> dict \<Rightarrow> string \<Rightarrow> string list \<Rightarrow> path \<Rightarrow> path
     \<Rightarrow> (design_error + 'm theme_data) \<times> path" where
  "validate_custom_theme env design theme_name available_entry_type_names
       original_working_directory cwd =
     (let custom_theme_folder = input_file_directory env @ [theme_name] in
      if \<not> path_exists env cwd custom_theme_folder
      then (Inl (ValueErrorArgs
              [Tup [theme_folder_message custom_theme_folder], Str '''', Str theme_name]), cwd)
      else
        (case filter (\<lambda>file. \<not> path_exists env cwd (custom_theme_folder @ [file]))
                (required_files available_entry_type_names) of
           file # others \<Rightarrow>
             (Inl (ValueErrorArgs
                [Str (theme_file_message file custom_theme_folder), Str '''', Str theme_name]),
              cwd)
         | [] \<Rightarrow>
             (let path_to_init_file = [theme_name, ''__init__.py''] in
              if path_exists env cwd path_to_init_file
              then
                (case exec_module env cwd path_to_init_file of
                   SyntaxError \<Rightarrow>
                     (Inl (ValueErrorArgs [Str (theme_syntax_message theme_name)]), cwd)
                 | ImportError \<Rightarrow>
                     (Inl (ValueErrorArgs [Tup [theme_import_message theme_name]]), cwd)
                 | Module theme_module \<Rightarrow>
                     (case theme_module (capitalize env theme_name @ ''ThemeOptions'') of
                        None \<Rightarrow> (Inl DesignAttributeError, cwd)
                      | Some ThemeDataModel \<Rightarrow>
                          (case construct ThemeDataModel design of
                             Inl e \<Rightarrow> (Inl e, cwd)
                           | Inr theme_data_model \<Rightarrow>
                               (Inr theme_data_model, original_working_directory))))
              else (Inr (ThemeOptionsAreNotProvided theme_name),
                    original_working_directory))))"

text \<open>
  \<open>available_theme_options[design["theme"]]\<close> where \<open>design["theme"] in
  available_theme_options\<close>: the keys are strings, so only a string can be one of them.
\<close>

definition builtin_model :: "tree \<Rightarrow> (string \<times> 'm data_model) list \<Rightarrow> 'm data_model option" where
  "builtin_model theme available_theme_options =
     (case theme of TStr s \<Rightarrow> map_of available_theme_options s | other \<Rightarrow> None)"

text \<open>
  \<open>validate_design_options\<close>, with the working directory of the process passed in and
  returned. A theme that is a list or a dictionary cannot be looked up in
  \<open>available_theme_options\<close>: it is not hashable.
\<close>

definition validate_design_options ::
  "'m theme_env \<Rightarrow> 'm design_arg \<Rightarrow> (string \<times> 'm data_model) list \<Rightarrow> string list \<Rightarrow> path
     \<Rightarrow> (design_error + 'm theme_data) \<times> path" where
  "validate_design_options env design available_theme_options available_entry_type_names cwd =
     (let original_working_directory = cwd in
      case design of
        Validated m \<Rightarrow> (Inr (Model m), cwd)
      | Unvalidated (TDict d) \<Rightarrow>
          (case map_of d ''theme'' of
             None \<Rightarrow> (Inl DesignKeyError, cwd)
           | Some theme \<Rightarrow>
               if is_container theme then (Inl DesignTypeError, cwd)
               else
                 (case builtin_model theme available_theme_options of
                    Some ThemeDataModel \<Rightarrow> (construct ThemeDataModel d, cwd)
                  | None \<Rightarrow>
                      (let theme_name = py_str theme in
                       if \<not> str_isalnum theme_name
                       then (Inl (ValueErrorArgs
                               [Str theme_name_message, Str ''theme'', Str theme_name]), cwd)
                       else validate_custom_theme env d theme_name available_entry_type_names
                              original_working_directory cwd)))
      | Unvalidated other \<Rightarrow> (Inl DesignTypeError, cwd))"

text \<open>
  An environment to run the function in: every file of the custom theme exists but for an
  \<open>__init__.py\<close>, and there is no built-in theme.
\<close>

definition plain_theme_env :: "unit theme_env" where
  "plain_theme_env =
     \<lparr>input_file_directory = [''cv''],
      path_exists = (\<lambda>cwd p. path_name p \<noteq> ''__init__.py''),
      exec_module = (\<lambda>cwd p. SyntaxError),
      capitalize = (\<lambda>s. s)\<rparr>"

definition no_themes :: "(string \<times> unit data_model) list" where
  "no_themes = []"

section \<open>Making the keywords bold\<close>

text \<open>
  \<open>re.sub(rf"\b{keyword}\b", f"**{keyword}**", value)\<close> for a keyword without regular
  expression metacharacters: the occurrences of the keyword that start and end at a word
  boundary, found from the left, none overlapping another. A word character is an
  alphanumeric character or the underscore; \<open>prev\<close> is the character before the text still
  to read.
\<close>

definition is_word_char :: "char option \<Rightarrow> bool" where
  "is_word_char c = (case c of None \<Rightarrow> False | Some x \<Rightarrow> char_isalnum x \<or> x = CHR ''_'')"

definition word_boundary :: "char option \<Rightarrow> char option \<Rightarrow> bool" where
  "word_boundary a b = (is_word_char a \<noteq> is_word_char b)"

definition first_char :: "string \<Rightarrow> char option" where
  "first_char s = (case s of [] \<Rightarrow> None | c # cs \<Rightarrow> Some c)"

function re_sub_word :: "string \<Rightarrow> char option \<Rightarrow> string \<Rightarrow> string" where
  "re_sub_word kw prev s =
     (if kw = [] then
        (if word_boundary prev (first_char s) then ''****'' else [])
        @ (if s = [] then [] else hd s # re_sub_word kw (Some (hd s)) (tl s))
      else if s = [] then []
      else if startswith s kw \<and> word_boundary prev (Some (hd s))
              \<and> word_boundary (Some (last kw)) (first_char (drop (length kw) s))
      then ''**'' @ kw @ ''**'' @ re_sub_word kw (Some (last kw)) (drop (length kw) s)
      else hd s # re_sub_word kw (Some (hd s)) (tl s))"
  by pat_completeness auto
termination
  by (relation "measure (\<lambda>(kw, prev, s). length s)") auto

declare re_sub_word.simps [simp del]


text \<open>
  \<open>make_given_keywords_bold_in_a_dictionary\<close> copies the dictionary one level deep
  (\<open>dictionary.copy()\<close>), so a list that is a value of \<open>dictionary\<close> is the same object in
  \<open>new_dictionary\<close>, and what the loop writes into it stays for the next keyword. A call is
  therefore modelled by what it leaves in \<open>dictionary\<close> and what it returns; an entry of the
  loop's state is a key, the value of \<open>dictionary\<close> and the value of \<open>new_dictionary\<close> under
  it. \<open>call\<close> is the recursive call; it has no result when the depth of the recursion is
  used up.
\<close>

fun fold_option :: "('a \<Rightarrow> 'b \<Rightarrow> 'b option) \<Rightarrow> 'a list \<Rightarrow> 'b \<Rightarrow> 'b option" where
  "fold_option f [] acc = Some acc"
| "fold_option f (x # xs) acc = (case f x acc of None \<Rightarrow> None | Some acc' \<Rightarrow> fold_option f xs acc')"

text \<open>The body of \<open>for i, item in enumerate(value)\<close>, for one item of a list.\<close>

definition bold_item :: "(dict \<Rightarrow> (dict \<times> dict) option) \<Rightarrow> string \<Rightarrow> tree \<Rightarrow> tree option" where
  "bold_item call keyword item =
     (case item of
        TStr s \<Rightarrow> Some (TStr (str_replace keyword (''**'' @ keyword @ ''**'') s))
      | TDict d \<Rightarrow> map_option (\<lambda>(d', new_dictionary). TDict new_dictionary) (call d)
      | other \<Rightarrow> Some other)"

text \<open>The body of \<open>for key, value in dictionary.items()\<close>, for one keyword and one key.\<close>

definition bold_entry ::
  "(dict \<Rightarrow> (dict \<times> dict) option) \<Rightarrow> string \<Rightarrow> string \<times> tree \<times> tree
     \<Rightarrow> (string \<times> tree \<times> tree) option" where
  "bold_entry call keyword entry =
     (case entry of (key, val, new_val) \<Rightarrow>
        (case val of
           TStr s \<Rightarrow> Some (key, val, TStr (re_sub_word keyword None s))
         | TDict d \<Rightarrow>
             map_option (\<lambda>(d', new_dictionary). (key, TDict d', TDict new_dictionary)) (call d)
         | TList xs \<Rightarrow>
             map_option (\<lambda>xs'. (key, TList xs', TList xs')) (those (map (bold_item call keyword) xs))
         | other \<Rightarrow> Some (key, val, new_val)))"

primrec make_bold :: "nat \<Rightarrow> string list \<Rightarrow> dict \<Rightarrow> (dict \<times> dict) option" where
  "make_bold 0 keywords dictionary = None"
| "make_bold (Suc n) keywords dictionary =
     map_option (\<lambda>entries. (map (\<lambda>(key, val, new_val). (key, val)) entries,
                            map (\<lambda>(key, val, new_val). (key, new_val)) entries))
       (fold_option (\<lambda>keyword entries. those (map (bold_entry (make_bold n keywords) keyword) entries))
          keywords (map (\<lambda>(key, val). (key, val, val)) dictionary))"

text \<open>
  The depth of a tree bounds the depth of the recursion, so the function itself is the bounded
  one at that depth.
\<close>

fun height :: "tree \<Rightarrow> nat" where
  "height TNone = 0"
| "height (TBool b) = 0"
| "height (TInt i) = 0"
| "height (TStr s) = 0"
| "height (TList xs) = Suc (fold max (map height xs) 0)"
| "height (TDict kvs) = Suc (fold max (map (\<lambda>kv. height (snd kv)) kvs) 0)"


definition make_given_keywords_bold_in_a_dictionary :: "dict \<Rightarrow> string list \<Rightarrow> dict option" where
  "make_given_keywords_bold_in_a_dictionary dictionary keywords =
     map_option snd (make_bold (height (TDict dictionary)) keywords dictionary)"

definition total_below :: "(dict \<Rightarrow> (dict \<times> dict) option) \<Rightarrow> nat \<Rightarrow> bool" where
  \<comment> \<open>\<open>call\<close> returns on every dictionary of depth at most \<open>n\<close>, and returns nothing deeper\<close>
  "total_below call n = (\<forall>c. height (TDict c) \<le> n \<longrightarrow>
     (\<exists>c' r. call c = Some (c', r) \<and> height (TDict c') \<le> height (TDict c)
        \<and> height (TDict r) \<le> height (TDict c)))"

section \<open>The run of the render command\<close>



















section \<open>Overrides addressed by dotted paths\<close>

fun split_on :: "char \<Rightarrow> string \<Rightarrow> string list" where
  \<comment> \<open>\<open>s.split(c)\<close> for a separator of one character\<close>
  "split_on c [] = [[]]"
| "split_on c (x # xs) =
     (if x = c then [] # split_on c xs
      else (case split_on c xs of p # ps \<Rightarrow> (x # p) # ps | [] \<Rightarrow> [[x]]))"

text \<open>
  The two built-in functions \<open>set_or_update_a_value\<close> calls are taken as they come. \<open>int\<close> on
  a string gives an integer or raises \<open>ValueError\<close>. \<open>eval(value)\<close> runs the text of the value
  as an expression with the variables of the call in scope, \<open>key\<close>, \<open>dictionary\<close> and
  \<open>sub_dictionary\<close> among them: the expression can read the tree and call the methods of its
  objects before it returns or raises. So an evaluation tells, with what \<open>eval\<close> returns or
  that it raises, the tree it leaves.
\<close>

datatype evaluation =
    Evaluated tree
      \<comment> \<open>\<open>eval\<close> returns this value, an object of its own, and has changed no object\<close>
  | EvalRaises tree
      \<comment> \<open>\<open>eval\<close> raises, leaving \<open>dictionary\<close> as this tree\<close>
  | EvalChanges tree tree
      \<comment> \<open>\<open>eval\<close> returns the first tree, an object of its own, after changing objects: it
          leaves \<open>dictionary\<close> as the second tree\<close>
  | EvalEntangles
      \<comment> \<open>anything else: \<open>eval\<close> returns an object of the tree, or an object that holds one\<close>

record py_env =
  py_int :: "string \<Rightarrow> int option"
  py_eval :: "string \<Rightarrow> string \<Rightarrow> tree \<Rightarrow> tree \<Rightarrow> evaluation"
    \<comment> \<open>\<open>eval(value)\<close> for the text \<open>value\<close>, where \<open>key\<close>, \<open>dictionary\<close> and
        \<open>sub_dictionary\<close> are the three arguments that follow\<close>

datatype path_error =
    InvalidLiteral string  \<comment> \<open>the \<open>ValueError\<close> of \<open>int(key)\<close>\<close>
  | IndexOutOfRange        \<comment> \<open>\<open>IndexError\<close>: a list index out of range\<close>
  | NotSubscriptable       \<comment> \<open>\<open>TypeError\<close>: the object is no list and no dictionary\<close>
  | EvalRaised             \<comment> \<open>whatever \<open>eval(value)\<close> raises\<close>

definition decode :: "py_env \<Rightarrow> string \<Rightarrow> string \<Rightarrow> tree \<Rightarrow> tree \<Rightarrow> evaluation" where
  \<comment> \<open>the value to assign: evaluated when it is written in braces or in brackets\<close>
  "decode env val key dictionary sub_dictionary =
     (if startswith val ''{'' \<and> endswith val ''}''
      then py_eval env val key dictionary sub_dictionary
      else if startswith val ''['' \<and> endswith val '']''
      then py_eval env val key dictionary sub_dictionary
      else Evaluated (TStr val))"

definition list_index :: "'a list \<Rightarrow> int \<Rightarrow> nat option" where
  \<comment> \<open>the position \<open>xs[i]\<close> reads and writes: a negative index counts from the end\<close>
  "list_index xs i =
     (let n = int (length xs); j = (if i < 0 then n + i else i)
      in if 0 \<le> j \<and> j < n then Some (nat j) else None)"

text \<open>
  A call of \<open>set_or_update_a_value\<close> changes the object \<open>updated_dict\<close> in place, so its
  outcome tells, with the return or the exception, what the object is like afterwards.
  When \<open>sub_dictionary\<close> is \<open>None\<close>, \<open>updated_dict\<close> is the whole \<open>dictionary\<close>: a call that
  finds \<open>None\<close> under its key hands the rest of the path to a call that works on
  \<open>dictionary\<close> itself. If that call returns, its caller stores \<open>dictionary\<close> in one of
  \<open>dictionary\<close>'s own containers, and the result is no tree any more.
\<close>

datatype outcome =
    Returned tree
      \<comment> \<open>the call returns \<open>updated_dict\<close>, now this tree\<close>
  | Raised path_error tree
      \<comment> \<open>the call raises, leaving \<open>updated_dict\<close> as this tree\<close>
  | RaisedInRoot path_error tree
      \<comment> \<open>the call raises, and the whole \<open>dictionary\<close> is left as this tree: the exception of
          \<open>eval\<close>, or of a call that worked on \<open>dictionary\<close> for a \<open>None\<close>\<close>
  | Cyclic
      \<comment> \<open>the call returns, and \<open>dictionary\<close> now contains itself\<close>
  | Entangled
      \<comment> \<open>\<open>eval\<close> changed objects below \<open>dictionary\<close>, or returned one of them: what the call
          then returns or raises depends on more than the two trees, and is not followed\<close>

text \<open>
  The assignment at the end of a path: \<open>key = int(key)\<close> if \<open>updated_dict\<close> is a list, then
  \<open>updated_dict[key] = value\<close>.
\<close>

definition set_item :: "py_env \<Rightarrow> tree \<Rightarrow> string \<Rightarrow> tree \<Rightarrow> outcome" where
  "set_item env updated_dict key v =
     (case updated_dict of
        TList xs \<Rightarrow>
          (case py_int env key of
             None \<Rightarrow> Raised (InvalidLiteral key) updated_dict
           | Some i \<Rightarrow>
               (case list_index xs i of
                  None \<Rightarrow> Raised IndexOutOfRange updated_dict
                | Some j \<Rightarrow> Returned (TList (xs[j := v]))))
      | TDict kvs \<Rightarrow> Returned (TDict (dict_set key v kvs))
      | other \<Rightarrow> Raised NotSubscriptable updated_dict)"

text \<open>
  What a call makes of the outcome of the call it made for the object \<open>sub_dictionary\<close> that
  it read under its key: \<open>store\<close> puts the object back under the key.
\<close>

definition after_existing :: "tree \<Rightarrow> (tree \<Rightarrow> tree) \<Rightarrow> outcome \<Rightarrow> outcome" where
  "after_existing sub_dictionary store result =
     (case result of
        Returned t \<Rightarrow> if sub_dictionary = TNone then Cyclic else Returned (store t)
      | Raised e t \<Rightarrow> if sub_dictionary = TNone then RaisedInRoot e t else Raised e (store t)
      | RaisedInRoot e r \<Rightarrow> RaisedInRoot e r
      | Cyclic \<Rightarrow> Cyclic
      | Entangled \<Rightarrow> Entangled)"

text \<open>
  \<open>set_or_update_a_value\<close> on the keys that \<open>key.split(".")\<close> gives, the first apart from the
  others. The call for the rest of the path gets \<open>".".join(keys[1:])\<close> and splits it again,
  into those others. At the end of the path the value is evaluated first. When \<open>eval\<close> has
  changed objects and returns, the assignment is followed only where \<open>updated_dict\<close> is
  \<open>dictionary\<close> itself, the tree \<open>eval\<close> tells about.
\<close>

fun set_keys :: "py_env \<Rightarrow> tree \<Rightarrow> string \<Rightarrow> string list \<Rightarrow> string \<Rightarrow> tree \<Rightarrow> outcome" where
  "set_keys env dictionary key [] val sub_dictionary =
     (let updated_dict = (if sub_dictionary \<noteq> TNone then sub_dictionary else dictionary) in
      case decode env val key dictionary sub_dictionary of
        Evaluated v \<Rightarrow> set_item env updated_dict key v
      | EvalRaises changed \<Rightarrow> RaisedInRoot EvalRaised changed
      | EvalChanges v changed \<Rightarrow>
          if sub_dictionary = TNone then set_item env changed key v else Entangled
      | EvalEntangles \<Rightarrow> Entangled)"
| "set_keys env dictionary first_key (key # keys) val sub_dictionary =
     (let updated_dict = (if sub_dictionary \<noteq> TNone then sub_dictionary else dictionary) in
      case updated_dict of
        TList xs \<Rightarrow>
          (case py_int env first_key of
             None \<Rightarrow> Raised (InvalidLiteral first_key) updated_dict
           | Some i \<Rightarrow>
               (case list_index xs i of
                  None \<Rightarrow> Raised IndexOutOfRange updated_dict
                | Some j \<Rightarrow>
                    after_existing (xs ! j) (\<lambda>t. TList (xs[j := t]))
                      (set_keys env dictionary key keys val (xs ! j))))
      | TDict kvs \<Rightarrow>
          (case map_of kvs first_key of
             Some sub_dictionary \<Rightarrow>
               after_existing sub_dictionary (\<lambda>t. TDict (dict_set first_key t kvs))
                 (set_keys env dictionary key keys val sub_dictionary)
           | None \<Rightarrow>
               (case set_keys env dictionary key keys val (TDict []) of
                  Returned t \<Rightarrow> Returned (TDict (dict_set first_key t kvs))
                | Raised e t \<Rightarrow> Raised e updated_dict
                | other \<Rightarrow> other))
      | TStr s \<Rightarrow>
          (if is_substr first_key s then Raised NotSubscriptable updated_dict
           else
             (case set_keys env dictionary key keys val (TDict []) of
                Returned t \<Rightarrow> Raised NotSubscriptable updated_dict
              | Raised e t \<Rightarrow> Raised e updated_dict
              | other \<Rightarrow> other))
      | other \<Rightarrow> Raised NotSubscriptable updated_dict)"

definition set_or_update_a_value :: "py_env \<Rightarrow> tree \<Rightarrow> string \<Rightarrow> string \<Rightarrow> outcome" where
  \<comment> \<open>the call \<open>set_or_update_a_value(dictionary, key, value)\<close>\<close>
  "set_or_update_a_value env dictionary key val =
     (let keys = split_on (CHR ''.'') key
      in set_keys env dictionary (hd keys) (tl keys) val TNone)"

fun set_or_update_values :: "py_env \<Rightarrow> tree \<Rightarrow> (string \<times> string) list \<Rightarrow> outcome" where
  "set_or_update_values env dictionary [] = Returned dictionary"
| "set_or_update_values env dictionary ((key, val) # key_and_values) =
     (case set_or_update_a_value env dictionary key val of
        Returned t \<Rightarrow> set_or_update_values env t key_and_values
      | other \<Rightarrow> other)"

text \<open>What a call returns, if it returns a tree, and how it leaves \<open>dictionary\<close> if it raises.\<close>

fun returned :: "outcome \<Rightarrow> tree option" where
  "returned (Returned t) = Some t"
| "returned other = None"

fun raised :: "outcome \<Rightarrow> (path_error \<times> tree) option" where
  "raised (Raised e t) = Some (e, t)"
| "raised (RaisedInRoot e t) = Some (e, t)"
| "raised other = None"

text \<open>The object a path of keys leads to in a tree.\<close>

fun lookup :: "py_env \<Rightarrow> tree \<Rightarrow> string list \<Rightarrow> tree option" where
  "lookup env t [] = Some t"
| "lookup env (TDict kvs) (key # keys) =
     (case map_of kvs key of None \<Rightarrow> None | Some t \<Rightarrow> lookup env t keys)"
| "lookup env (TList xs) (key # keys) =
     (case py_int env key of
        None \<Rightarrow> None
      | Some i \<Rightarrow> (case list_index xs i of None \<Rightarrow> None | Some j \<Rightarrow> lookup env (xs ! j) keys))"
| "lookup env t (key # keys) = None"

text \<open>
  Two properties of a value, given what \<open>eval\<close> does. Its evaluation keeps a tree when, called
  on that tree, it changes no object: it returns a value of its own, or it raises and leaves
  the tree as it is. Its evaluation is fixed when, for each key, it gives the same on every
  tree and changes none: one value of its own, or an exception. A value that is not written in
  braces or brackets is not evaluated, and has both properties.
\<close>

definition evaluation_keeps :: "py_env \<Rightarrow> string \<Rightarrow> tree \<Rightarrow> bool" where
  "evaluation_keeps env val dictionary =
     (\<forall>key sub_dictionary.
        (\<exists>v. decode env val key dictionary sub_dictionary = Evaluated v)
        \<or> decode env val key dictionary sub_dictionary = EvalRaises dictionary)"

definition evaluation_is_fixed :: "py_env \<Rightarrow> string \<Rightarrow> bool" where
  "evaluation_is_fixed env val =
     (\<forall>key.
        (\<exists>v. \<forall>dictionary sub_dictionary.
           decode env val key dictionary sub_dictionary = Evaluated v)
        \<or> (\<forall>dictionary sub_dictionary.
             decode env val key dictionary sub_dictionary = EvalRaises dictionary))"

text \<open>
  An environment to run in: \<open>int\<close> reads a string of decimal digits, and \<open>eval\<close> knows the
  empty dictionary and the empty list.
\<close>

fun nat_of_digits :: "string \<Rightarrow> nat \<Rightarrow> nat option" where
  "nat_of_digits [] n = Some n"
| "nat_of_digits (c # cs) n =
     (if 48 \<le> (of_char c :: nat) \<and> (of_char c :: nat) \<le> 57
      then nat_of_digits cs (10 * n + (of_char c - 48)) else None)"

definition plain_py_env :: py_env where
  "plain_py_env =
     \<lparr>py_int = (\<lambda>s. if s = [] then None else map_option int (nat_of_digits s 0)),
      py_eval = (\<lambda>val key dictionary sub_dictionary.
                   if val = ''{}'' then Evaluated (TDict [])
                   else if val = ''[]'' then Evaluated (TList [])
                   else EvalRaises dictionary)\<rparr>"

text \<open>
  An environment whose \<open>eval\<close> knows three expressions that use the variable \<open>dictionary\<close>:
  \<open>[len(dictionary)]\<close> reads it, \<open>[dictionary.clear()]\<close> empties it and returns \<open>[None]\<close>,
  and \<open>[dictionary.clear(), 1/0]\<close> empties it and raises \<open>ZeroDivisionError\<close>. Any other
  text raises.
\<close>

fun cleared :: "tree \<Rightarrow> tree option" where
  \<comment> \<open>the object after \<open>x.clear()\<close>, for a list or a dictionary\<close>
  "cleared (TList xs) = Some (TList [])"
| "cleared (TDict kvs) = Some (TDict [])"
| "cleared t = None"

fun len :: "tree \<Rightarrow> int option" where
  \<comment> \<open>\<open>len(x)\<close>\<close>
  "len (TList xs) = Some (int (length xs))"
| "len (TDict kvs) = Some (int (length kvs))"
| "len (TStr s) = Some (int (length s))"
| "len t = None"

definition scoped_py_env :: py_env where
  "scoped_py_env =
     \<lparr>py_int = (\<lambda>s. if s = [] then None else map_option int (nat_of_digits s 0)),
      py_eval = (\<lambda>val key dictionary sub_dictionary.
                   if val = ''[len(dictionary)]''
                   then (case len dictionary of
                           None \<Rightarrow> EvalRaises dictionary
                         | Some n \<Rightarrow> Evaluated (TList [TInt n]))
                   else if val = ''[dictionary.clear()]''
                   then (case cleared dictionary of
                           None \<Rightarrow> EvalRaises dictionary
                         | Some emptied \<Rightarrow> EvalChanges (TList [TNone]) emptied)
                   else if val = ''[dictionary.clear(), 1/0]''
                   then (case cleared dictionary of
                           None \<Rightarrow> EvalRaises dictionary
                         | Some emptied \<Rightarrow> EvalRaises emptied)
                   else EvalRaises dictionary)\<rparr>"

text \<open>A document to apply overrides to.\<close>

definition example_tree :: tree where
  "example_tree = TDict [(''cv'', TDict [(''name'', TStr ''Ada''), (''phone'', TNone),
      (''sections'', TList [TStr ''a'', TStr ''b''])])]"

section \<open>The errors of a validation\<close>

text \<open>
  An error of Pydantic's \<open>ValidationError.errors()\<close>: its location (strings and integers),
  its message, the input it is about and, possibly, a context. The context may hold the
  exception that the validator raised, whose cause may be a \<open>ValidationError\<close> of its own.
\<close>

datatype loc_elem = LStr string | LInt int

datatype raw_error =
    RawError (raw_loc: "loc_elem list") (raw_msg: string) (raw_input: tree)
      (raw_ctx: error_context)
and error_context =
    NoContext                   \<comment> \<open>the error has no key \<open>ctx\<close>\<close>
  | ContextWithoutError         \<comment> \<open>\<open>ctx\<close> has no key \<open>error\<close>\<close>
  | ErrorWithoutCause           \<comment> \<open>\<open>ctx["error"]\<close> has no attribute \<open>__cause__\<close>\<close>
  | ErrorCausedBy cause         \<comment> \<open>\<open>ctx["error"].__cause__\<close>\<close>
and cause =
    NoCause                     \<comment> \<open>\<open>None\<close>: the exception was raised without \<open>from\<close>\<close>
  | OtherCause                  \<comment> \<open>an exception without \<open>errors()\<close>\<close>
  | ValidationCause "raw_error list"  \<comment> \<open>a \<open>ValidationError\<close>, with its \<open>errors()\<close>\<close>

text \<open>A diagnostic: the dictionary with the keys \<open>loc\<close>, \<open>msg\<close> and \<open>input\<close>.\<close>

datatype diagnostic = Diagnostic (d_loc: string) (d_msg: string) (d_input: string)

definition sq :: string where
  \<comment> \<open>the single quote\<close>
  "sq = [CHR 0x27]"

definition dq :: string where
  \<comment> \<open>the double quote\<close>
  "dq = [CHR 0x22]"

definition backslash :: string where
  "backslash = [CHR 0x5C]"

definition newline :: char where
  "newline = CHR 0x0A"

subsection \<open>The custom errors\<close>

text \<open>
  \<open>re.search\<close> with the pattern \<open>\(['"](.*)['"], '(.*)', '(.*)'\)\<close>. A group \<open>(.*)\<close> takes as
  many characters other than newlines as the rest of the pattern allows: \<open>greedy rest s\<close>
  tries the prefixes of \<open>s\<close> from the longest, and gives the first with what \<open>rest\<close> makes of
  the text after it.
\<close>

fun greedy :: "(string \<Rightarrow> 'a option) \<Rightarrow> string \<Rightarrow> (string \<times> 'a) option" where
  "greedy rest [] = map_option (Pair []) (rest [])"
| "greedy rest (c # cs) =
     (case (if c = newline then None else greedy rest cs) of
        Some (g, r) \<Rightarrow> Some (c # g, r)
      | None \<Rightarrow> map_option (Pair []) (rest (c # cs)))"

definition after_literal :: "string \<Rightarrow> string \<Rightarrow> string option" where
  "after_literal lit s = (if startswith s lit then Some (drop (length lit) s) else None)"

definition after_quote :: "string \<Rightarrow> string option" where
  \<comment> \<open>the class \<open>['"]\<close>\<close>
  "after_quote s =
     (case s of
        [] \<Rightarrow> None
      | c # cs \<Rightarrow> if [c] = sq \<or> [c] = dq then Some cs else None)"

definition match_custom_error :: "string \<Rightarrow> (string \<times> string \<times> string) option" where
  \<comment> \<open>a match of the pattern that starts at the start of the string\<close>
  "match_custom_error s =
     (case after_literal ''('' s of
        None \<Rightarrow> None
      | Some s1 \<Rightarrow>
          (case after_quote s1 of
             None \<Rightarrow> None
           | Some s2 \<Rightarrow>
               (case greedy (\<lambda>s3.
                       case after_quote s3 of
                         None \<Rightarrow> None
                       | Some s4 \<Rightarrow>
                           (case after_literal ('', '' @ sq) s4 of
                              None \<Rightarrow> None
                            | Some s5 \<Rightarrow>
                                greedy (\<lambda>s6.
                                    case after_literal (sq @ '', '' @ sq) s6 of
                                      None \<Rightarrow> None
                                    | Some s7 \<Rightarrow> greedy (after_literal (sq @ '')'')) s7)
                                  s5)) s2 of
                  None \<Rightarrow> None
                | Some (g1, g2, g3, s8) \<Rightarrow> Some (g1, g2, g3))))"

fun get_error_message_and_location_and_value_from_a_custom_error ::
  "string \<Rightarrow> (string \<times> string \<times> string) option" where
  \<comment> \<open>the leftmost match; \<open>None\<close> stands for \<open>(None, None, None)\<close>\<close>
  "get_error_message_and_location_and_value_from_a_custom_error [] = match_custom_error []"
| "get_error_message_and_location_and_value_from_a_custom_error (c # cs) =
     (case match_custom_error (c # cs) of
        Some groups \<Rightarrow> Some groups
      | None \<Rightarrow> get_error_message_and_location_and_value_from_a_custom_error cs)"

subsection \<open>The tables\<close>

definition date_message :: string where
  "date_message =
     ''This is not a valid date! Please use either YYYY-MM-DD, YYYY-MM, or YYYY format!''"

definition error_dictionary :: "(string \<times> string) list" where
  "error_dictionary =
     [(''Input should be '' @ sq @ ''present'' @ sq,
       ''This is not a valid date! Please use either YYYY-MM-DD, YYYY-MM, or YYYY format or ''
       @ dq @ ''present'' @ dq @ ''!''),
      (''Input should be a valid integer, unable to parse string as an integer'', date_message),
      (''String should match pattern '' @ sq @ backslash @ ''d{4}-'' @ backslash @ ''d{2}(-''
       @ backslash @ ''d{2})?'' @ sq, date_message),
      (''String should match pattern '' @ sq @ backslash @ ''b10'' @ backslash @ ''..*'' @ sq,
       ''A DOI prefix should always start with '' @ dq @ ''10.'' @ dq @ ''. For example, ''
       @ dq @ ''10.1109/TASC.2023.3340648'' @ dq @ ''.''),
      (''URL scheme should be '' @ sq @ ''http'' @ sq @ '' or '' @ sq @ ''https'' @ sq,
       ''This is not a valid URL!''),
      (''Field required'', ''This field is required!''),
      (''value is not a valid phone number'', ''This is not a valid phone number!''),
      (''month must be in 1..12'', ''The month must be between 1 and 12!''),
      (''day is out of range for month'', ''The day is out of range for the month!''),
      (''Extra inputs are not permitted'',
       ''This field is unknown for this object! Please remove it.''),
      (''Input should be a valid string'', ''This field should be a string!''),
      (''Input should be a valid list'',
       ''This field should contain a list of items but it doesn'' @ sq @ ''t!'')]"

definition unwanted_texts :: "string list" where
  "unwanted_texts = [''value is not a valid email address: '', ''Value error, '']"

definition unwanted_locations :: "string list" where
  "unwanted_locations = [''tagged-union'', ''list'', ''literal'', ''int'', ''constrained-str'']"

definition end_date_message :: string where
  "end_date_message =
     ''This is not a valid end date! Please use either YYYY-MM-DD, YYYY-MM, or YYYY format or ''
     @ dq @ ''present'' @ dq @ ''!''"

subsection \<open>The errors of the causes\<close>

text \<open>
  The first loop, for one error: the errors of its cause, each with the location of the error
  before its own location without the first element. An exception always has the attribute
  \<open>__cause__\<close>; when it is \<open>None\<close>, or an exception without \<open>errors\<close>, the call
  \<open>cause_object.errors()\<close> raises \<open>AttributeError\<close>.
\<close>

fun cause_errors :: "raw_error \<Rightarrow> error + raw_error list" where
  "cause_errors (RawError location message input_value context) =
     (if is_substr ''There are problems with the entries.'' message
      then
        (case context of
           ErrorCausedBy (ValidationCause cause_object_errors) \<Rightarrow>
             Inr (map (\<lambda>cause_error_object.
                    RawError (location @ drop 1 (raw_loc cause_error_object))
                      (raw_msg cause_error_object) (raw_input cause_error_object)
                      (raw_ctx cause_error_object))
                  cause_object_errors)
         | ErrorCausedBy other \<Rightarrow> Inl AttributeError
         | other \<Rightarrow> Inr [])
      else Inr [])"

fun extend_with_causes :: "raw_error list \<Rightarrow> raw_error list \<Rightarrow> error + raw_error list" where
  \<comment> \<open>\<open>for error_object in errors.copy(): ... errors.extend(cause_object_errors)\<close>\<close>
  "extend_with_causes [] errors = Inr errors"
| "extend_with_causes (error_object # others) errors =
     (case cause_errors error_object of
        Inl e \<Rightarrow> Inl e
      | Inr cause_object_errors \<Rightarrow> extend_with_causes others (errors @ cause_object_errors))"

subsection \<open>The locations\<close>

definition str_of_loc :: "loc_elem \<Rightarrow> string" where
  "str_of_loc location_element =
     (case location_element of LStr s \<Rightarrow> s | LInt i \<Rightarrow> str_of_int i)"

definition list_remove :: "string \<Rightarrow> string list \<Rightarrow> error + string list" where
  \<comment> \<open>\<open>xs.remove(x)\<close>: the first element equal to \<open>x\<close> goes, and there must be one\<close>
  "list_remove x xs =
     (if x \<in> set xs then Inr (remove1 x xs)
      else Inl (ValueError [''list.remove(x): x not in list'']))"

fun remove_for_each_marker :: "string \<Rightarrow> string list \<Rightarrow> string list \<Rightarrow> error + string list" where
  \<comment> \<open>\<open>for unwanted_location in unwanted_locations: if unwanted_location in
      location_element: new_location.remove(location_element)\<close>\<close>
  "remove_for_each_marker location_element [] new_location = Inr new_location"
| "remove_for_each_marker location_element (unwanted_location # others) new_location =
     (if is_substr unwanted_location location_element
      then
        (case list_remove location_element new_location of
           Inl e \<Rightarrow> Inl e
         | Inr new_location \<Rightarrow> remove_for_each_marker location_element others new_location)
      else remove_for_each_marker location_element others new_location)"

fun remove_unwanted :: "string list \<Rightarrow> string list \<Rightarrow> error + string list" where
  \<comment> \<open>\<open>for location_element in location: ...\<close>\<close>
  "remove_unwanted [] new_location = Inr new_location"
| "remove_unwanted (location_element # others) new_location =
     (case remove_for_each_marker location_element unwanted_locations new_location of
        Inl e \<Rightarrow> Inl e
      | Inr new_location \<Rightarrow> remove_unwanted others new_location)"

definition clean_location :: "loc_elem list \<Rightarrow> error + string list" where
  "clean_location raw_location =
     (let location = map str_of_loc raw_location in remove_unwanted location location)"

fun clean_locations ::
  "raw_error list \<Rightarrow> error + (string list \<times> string \<times> tree) list" where
  \<comment> \<open>the second loop: each error with its new location, its message and its input\<close>
  "clean_locations [] = Inr []"
| "clean_locations (error_object # others) =
     (case clean_location (raw_loc error_object) of
        Inl e \<Rightarrow> Inl e
      | Inr new_location \<Rightarrow>
          (case clean_locations others of
             Inl e \<Rightarrow> Inl e
           | Inr cleaned \<Rightarrow>
               Inr ((new_location, raw_msg error_object, raw_input error_object) # cleaned)))"

subsection \<open>The diagnostics\<close>

text \<open>The body of the third loop, up to the test for a duplicate.\<close>

definition new_error :: "string list \<times> string \<times> tree \<Rightarrow> diagnostic" where
  "new_error error_object =
     (case error_object of (new_location, message, input_value) \<Rightarrow>
        (let location = join_with ''.'' new_location;
             (message, location, input_value) =
               (case get_error_message_and_location_and_value_from_a_custom_error message of
                  None \<Rightarrow> (message, location, input_value)
                | Some (custom_message, custom_location, custom_input_value) \<Rightarrow>
                    (custom_message,
                     if custom_location \<noteq> [] then location @ ''.'' @ custom_location
                     else location,
                     TStr custom_input_value));
             message = fold (\<lambda>unwanted_text message. str_replace unwanted_text [] message)
                         unwanted_texts message;
             message = (case map_of error_dictionary message of
                          Some friendly \<Rightarrow> friendly | None \<Rightarrow> message);
             message = (if is_substr ''end_date'' location then end_date_message else message);
             input_value = (if is_container input_value then TStr [] else input_value)
         in Diagnostic location message (py_str input_value)))"

fun append_new_errors :: "diagnostic list \<Rightarrow> diagnostic list \<Rightarrow> diagnostic list" where
  \<comment> \<open>\<open>if new_error not in new_errors: new_errors.append(new_error)\<close>, for each in turn\<close>
  "append_new_errors [] new_errors = new_errors"
| "append_new_errors (d # ds) new_errors =
     append_new_errors ds (if d \<in> set new_errors then new_errors else new_errors @ [d])"

definition parse_validation_errors :: "raw_error list \<Rightarrow> error + diagnostic list" where
  "parse_validation_errors errors =
     (case extend_with_causes errors errors of
        Inl e \<Rightarrow> Inl e
      | Inr errors \<Rightarrow>
          (case clean_locations errors of
             Inl e \<Rightarrow> Inl e
           | Inr cleaned \<Rightarrow> Inr (append_new_errors (map new_error cleaned) [])))"





definition two_markers_error :: raw_error where
  "two_markers_error = RawError [LStr ''cv'', LStr ''list[int]'']
     ''Input should be a valid list'' (TStr ''x'') NoContext"

section \<open>Theorems\<close>

subsection \<open>Strings\<close>

lemma str_replace_dashes: "str_replace ''--'' '''' s = without_double_dashes s"
proof (induction s rule: without_double_dashes.induct)
  case (1 a b cs)
  then show ?case
    by (subst str_replace.simps) (auto simp: startswith_def)
next
  case (2 a)
  then show ?case
    by (subst str_replace.simps, simp add: startswith_def, subst str_replace.simps, simp)
next
  case 3
  then show ?case by (subst str_replace.simps) simp
qed

lemma without_double_dashes_keep:
  "b \<noteq> CHR ''-'' \<Longrightarrow> without_double_dashes (b # cs) = b # without_double_dashes cs"
  by (cases cs) auto

lemma startswith_Cons:
  "startswith (c # cs) (p # ps) = (c = p \<and> startswith cs ps)"
  by (auto simp: startswith_def)

lemma startswith_Nil [simp]: "startswith s []"
  by (simp add: startswith_def)

lemma startswith_empty [simp]: "startswith [] p = (p = [])"
  by (auto simp: startswith_def)

lemma no_double_dashes_left: "\<not> is_substr ''--'' (without_double_dashes s)"
proof (induction s rule: without_double_dashes.induct)
  case (1 a b cs)
  show ?case
  proof (cases "a = CHR ''-''")
    case True
    show ?thesis
    proof (cases "b = CHR ''-''")
      case True
      with \<open>a = CHR ''-''\<close> 1 show ?thesis by simp
    next
      case False
      with \<open>a = CHR ''-''\<close> 1 show ?thesis
        by (simp add: without_double_dashes_keep startswith_Cons)
    qed
  next
    case False
    with 1 show ?thesis by (simp add: startswith_Cons)
  qed
next
  case (2 a)
  show ?case by (simp add: startswith_Cons)
next
  case 3
  show ?case by simp
qed

lemma override_loop_even:
  "even (length args) \<Longrightarrow> list_all (\<lambda>(key, val). startswith key ''--'') (argument_pairs args) \<Longrightarrow>
   override_loop args acc =
     Inr (foldl (\<lambda>d (key, val). dict_set (without_double_dashes key) val d) acc
            (argument_pairs args))"
proof (induction args acc rule: override_loop.induct)
  case (1 key val rest key_and_values)
  then show ?case by (simp add: str_replace_dashes)
next
  case (2 key key_and_values)
  then show ?case by simp
next
  case (3 key_and_values)
  then show ?case by simp
qed

lemma dict_set_keys: "fst ` set (dict_set k v kvs) = insert k (fst ` set kvs)"
  by (induction kvs) (force split: if_splits)+

lemma map_of_dict_set: "map_of (dict_set k v kvs) = (map_of kvs)(k \<mapsto> v)"
  by (induction kvs) (auto simp: fun_eq_iff)

lemma foldl_dict_set_keys:
  "fst ` set (foldl (\<lambda>d (key, val). dict_set (f key) val d) acc ps) =
     fst ` set acc \<union> f ` fst ` set ps"
proof (induction ps arbitrary: acc)
  case Nil
  show ?case by simp
next
  case (Cons p ps)
  obtain key val where p: "p = (key, val)" by (cases p)
  show ?case unfolding p by (simp add: Cons.IH dict_set_keys)
qed

subsection \<open>The number of steps\<close>

text \<open>
  C1. For each of the eight combinations of the three flags, the number of steps
  \<open>run_rendercv_with_printer\<close> computes before its first stage is six, less one when PNG is
  disabled, less two when Markdown is disabled, less one when Markdown is enabled and HTML is
  disabled.
\<close>

theorem number_of_steps_spec:
  "number_of_steps \<lparr>dont_generate_png = png, dont_generate_markdown = md,
      dont_generate_html = html\<rparr> = spec_step_count png md html"
  by (simp add: number_of_steps_def spec_step_count_def Let_def)

subsection \<open>The override arguments\<close>

text \<open>
  C10. For an even number of arguments whose keys (the arguments at even positions) all start
  with two dashes, the parser returns the dictionary built by assigning, in order, each value
  to its key with every occurrence of \<open>--\<close> removed, not only the leading one: no key of
  the result contains \<open>--\<close>, and \<open>--a--b\<close> gives the key \<open>ab\<close>.
\<close>

theorem override_keys_lose_every_double_dash:
  assumes "even (length args)"
    and "list_all (\<lambda>(key, val). startswith key ''--'') (argument_pairs args)"
  shows "parse_render_command_override_arguments args =
           Inr (foldl (\<lambda>d (key, val). dict_set (without_double_dashes key) val d) []
                  (argument_pairs args))
         \<and> (\<forall>kvs. parse_render_command_override_arguments args = Inr kvs \<longrightarrow>
               list_all (\<lambda>(key, val). \<not> is_substr ''--'' key) kvs)
         \<and> parse_render_command_override_arguments [''--a--b'', val] = Inr [(''ab'', val)]"
proof -
  let ?f = "\<lambda>d (key, val). dict_set (without_double_dashes key) val d"
  have run: "parse_render_command_override_arguments args = Inr (foldl ?f [] (argument_pairs args))"
    using assms by (simp add: parse_render_command_override_arguments_def override_loop_even)
  have keys: "fst ` set (foldl ?f [] (argument_pairs args)) =
      without_double_dashes ` fst ` set (argument_pairs args)"
    by (simp add: foldl_dict_set_keys)
  have clean: "list_all (\<lambda>(key, val). \<not> is_substr ''--'' key) (foldl ?f [] (argument_pairs args))"
  proof -
    have "\<forall>k \<in> fst ` set (foldl ?f [] (argument_pairs args)). \<not> is_substr ''--'' k"
      unfolding keys using no_double_dashes_left by blast
    then show ?thesis by (force simp: list_all_iff)
  qed
  have ex: "parse_render_command_override_arguments [''--a--b'', val] = Inr [(''ab'', val)]"
    by (simp add: parse_render_command_override_arguments_def startswith_def str_replace_dashes)
  show ?thesis using run clean ex by simp
qed

theorem override_keys_lose_every_double_dash_witness:
  "even (length [''--a--b'', ''x'']) \<and>
   list_all (\<lambda>(key, val). startswith key ''--'') (argument_pairs [''--a--b'', ''x'']) \<and>
   parse_render_command_override_arguments [''--a--b'', ''x''] = Inr [(''ab'', ''x'')]"
  using override_keys_lose_every_double_dash [of "[''--a--b'', ''x'']" "''y''"]
  by (simp add: startswith_def)

subsection \<open>The copies of the artifacts\<close>

text \<open>
  C9, as the code has it. When a stage produces no artifact or more than one, the artifact at
  position \<open>i\<close> (from 0) is copied to the destination's parent directory under the name made
  of the destination's stem, an underscore, the page number \<open>i + 1\<close> and the suffix \<open>.png\<close>,
  whatever the suffix of the destination is.
\<close>

theorem copy_files_page_numbers:
  assumes "length ps \<noteq> 1" and "i < length ps"
  shows "length (copy_files (PathList ps) new_path) = length ps
    \<and> copy_files (PathList ps) new_path ! i =
        (ps ! i, path_parent new_path @
                   [path_stem new_path @ ''_'' @ str_of_nat (i + 1) @ ''.png''])"
  using assms
  by (simp add: copy_files_def png_path_with_page_number_def nth_enumerate_eq)

theorem copy_files_page_numbers_witness:
  "length [[''out'', ''cv_1.png''], [''out'', ''cv_2.png'']] \<noteq> 1 \<and>
   (1::nat) < length [[''out'', ''cv_1.png''], [''out'', ''cv_2.png'']] \<and>
   copy_files (PathList [[''out'', ''cv_1.png''], [''out'', ''cv_2.png'']]) [''pages'', ''page.png'']
     ! 1 = ([''out'', ''cv_2.png''], [''pages'', ''page_2.png''])"
  using copy_files_page_numbers
    [of "[[''out'', ''cv_1.png''], [''out'', ''cv_2.png'']]" 1 "[''pages'', ''page.png'']"]
  by (simp add: path_parent_def path_stem_def path_name_def str_of_nat.simps digit_char_def)

text \<open>
  The claim as stated fails: with the destination \<open>shots/page.jpg\<close>, whose suffix is \<open>.jpg\<close>,
  two artifacts go to \<open>shots/page_1.png\<close> and \<open>shots/page_2.png\<close>.
\<close>

theorem copy_files_suffix_counterexample:
  "path_suffix [''shots'', ''page.jpg''] = ''.jpg'' \<and>
   copy_files (PathList [[''out'', ''cv_1.png''], [''out'', ''cv_2.png'']]) [''shots'', ''page.jpg'']
     = [([''out'', ''cv_1.png''], [''shots'', ''page_1.png'']),
        ([''out'', ''cv_2.png''], [''shots'', ''page_2.png''])]"
  by (simp add: copy_files_def png_path_with_page_number_def path_parent_def path_stem_def
      path_suffix_def path_name_def str_of_nat.simps digit_char_def)

subsection \<open>The name of a custom theme\<close>

lemma validate_custom_theme_not_name_error:
  "fst (validate_custom_theme env d theme_name names original cwd)
     \<noteq> Inl (ValueErrorArgs [Str m, Str ''theme'', Str n])"
  by (simp add: validate_custom_theme_def construct_def Let_def
      split: list.splits load_result.splits option.splits sum.splits)

lemma ascii_alnum_isalnum: "matches_ascii_alnum s \<Longrightarrow> str_isalnum s"
  by (auto simp: matches_ascii_alnum_def str_isalnum_def char_isalnum_def list_all_iff)

text \<open>
  C4, as the code has it. For a design dictionary whose theme is no list, no dictionary and no
  name of a built-in theme, \<open>validate_design_options\<close> raises
  \<open>ValueError(message, "theme", theme_name)\<close> exactly when \<open>str(theme).isalnum()\<close> is false.
  Every name that matches \<open>^[A-Za-z0-9]+$\<close> passes this test, and so do names with other
  letters or digits.
\<close>

theorem theme_name_checked_by_isalnum:
  assumes "map_of d ''theme'' = Some theme"
    and "\<not> is_container theme"
    and "builtin_model theme available_theme_options = None"
  shows "(fst (validate_design_options env (Unvalidated (TDict d)) available_theme_options
              available_entry_type_names cwd)
          = Inl (ValueErrorArgs [Str theme_name_message, Str ''theme'', Str (py_str theme)]))
         = (\<not> str_isalnum (py_str theme))
    \<and> (matches_ascii_alnum (py_str theme) \<longrightarrow> str_isalnum (py_str theme))"
  using assms
  by (simp add: validate_design_options_def Let_def validate_custom_theme_not_name_error
      ascii_alnum_isalnum)

theorem theme_name_checked_by_isalnum_witness:
  "map_of [(''theme'', TStr ''my theme'')] ''theme'' = Some (TStr ''my theme'')
   \<and> \<not> is_container (TStr ''my theme'')
   \<and> builtin_model (TStr ''my theme'') no_themes = None
   \<and> \<not> str_isalnum ''my theme''
   \<and> fst (validate_design_options plain_theme_env
             (Unvalidated (TDict [(''theme'', TStr ''my theme'')])) no_themes [] [''work''])
       = Inl (ValueErrorArgs [Str theme_name_message, Str ''theme'', Str ''my theme''])"
proof -
  have a: "map_of [(''theme'', TStr ''my theme'')] ''theme'' = Some (TStr ''my theme'')"
    by simp
  have b: "\<not> is_container (TStr ''my theme'')" by simp
  have c: "builtin_model (TStr ''my theme'') no_themes = None"
    by (simp add: builtin_model_def no_themes_def)
  have d: "\<not> str_isalnum ''my theme''"
    by (simp add: str_isalnum_def char_isalnum_def char_is_ascii_alnum_def)
  show ?thesis
    using theme_name_checked_by_isalnum [OF a b c, of plain_theme_env "[]" "[''work'']"] a b c d
    by simp
qed

text \<open>
  The claim as stated fails: the name made of the one letter U+00E9 does not match
  \<open>^[A-Za-z0-9]+$\<close>, and the theme is accepted.
\<close>

theorem theme_name_counterexample:
  "\<not> matches_ascii_alnum [CHR 0xE9]
   \<and> validate_design_options plain_theme_env (Unvalidated (TDict [(''theme'', TStr [CHR 0xE9])]))
       no_themes [] [''work'']
     = (Inr (ThemeOptionsAreNotProvided [CHR 0xE9]), [''work''])"
  by (simp add: matches_ascii_alnum_def char_is_ascii_alnum_def validate_design_options_def
      builtin_model_def no_themes_def str_isalnum_def char_isalnum_def Let_def
      validate_custom_theme_def plain_theme_env_def required_files_def path_name_def)

subsection \<open>Making the keywords bold\<close>

text \<open>
  The recursion of \<open>make_given_keywords_bold_in_a_dictionary\<close> is never deeper than the
  dictionary: the function returns on every dictionary and every list of keywords, and the
  dictionary it returns has the keys of the one it was given.
\<close>

lemma fold_max_le: "fold max xs a \<le> (b::nat) \<longleftrightarrow> a \<le> b \<and> (\<forall>x \<in> set xs. x \<le> b)"
  by (induction xs arbitrary: a) auto

lemma height_TList_le: "height (TList xs) \<le> Suc b \<longleftrightarrow> (\<forall>x \<in> set xs. height x \<le> b)"
  by (simp add: fold_max_le)

lemma height_TDict_le: "height (TDict kvs) \<le> Suc b \<longleftrightarrow> (\<forall>kv \<in> set kvs. height (snd kv) \<le> b)"
  by (simp add: fold_max_le)

lemma those_map_total:
  "(\<And>x. x \<in> set xs \<Longrightarrow> \<exists>y. f x = Some y \<and> P x y) \<Longrightarrow>
   \<exists>ys. those (map f xs) = Some ys \<and> list_all2 P xs ys"
proof (induction xs)
  case Nil
  show ?case by simp
next
  case (Cons x xs)
  from Cons.prems [of x] obtain y where y: "f x = Some y" "P x y" by auto
  from Cons.IH Cons.prems obtain ys where ys: "those (map f xs) = Some ys" "list_all2 P xs ys"
    by (meson list.set_intros(2))
  show ?case using y ys by simp
qed

lemma bold_item_total:
  assumes "total_below call n" and "height item \<le> n"
  shows "\<exists>item'. bold_item call keyword item = Some item' \<and> height item' \<le> height item"
proof (cases item)
  case (TDict c)
  with assms obtain c' r where "call c = Some (c', r)" "height (TDict r) \<le> height (TDict c)"
    unfolding total_below_def by blast
  with TDict show ?thesis by (simp add: bold_item_def)
qed (simp_all add: bold_item_def)

lemma bold_entry_total:
  assumes "total_below call n" and "b \<le> n" and "height val \<le> b" and "height new_val \<le> b"
  shows "\<exists>val' new_val'. bold_entry call keyword (key, val, new_val) = Some (key, val', new_val')
           \<and> height val' \<le> b \<and> height new_val' \<le> b"
proof (cases val)
  case (TDict c)
  with assms obtain c' r where "call c = Some (c', r)" "height (TDict c') \<le> height (TDict c)"
     "height (TDict r) \<le> height (TDict c)"
    unfolding total_below_def by (metis le_trans)
  with TDict assms(3) show ?thesis by (simp add: bold_entry_def)
next
  case (TList xs)
  obtain b' where b': "b = Suc b'" using TList assms(3) by (cases b) auto
  have items: "\<forall>x \<in> set xs. height x \<le> b'"
    using TList assms(3) by (simp add: b' fold_max_le)
  have "\<exists>ys. those (map (bold_item call keyword) xs) = Some ys
          \<and> list_all2 (\<lambda>x y. height y \<le> height x) xs ys"
  proof (rule those_map_total)
    fix x assume "x \<in> set xs"
    then have "height x \<le> n" using items assms(2) b' by fastforce
    then show "\<exists>y. bold_item call keyword x = Some y \<and> height y \<le> height x"
      by (rule bold_item_total [OF assms(1)])
  qed
  then obtain ys where ys: "those (map (bold_item call keyword) xs) = Some ys"
      "list_all2 (\<lambda>x y. height y \<le> height x) xs ys" by blast
  have "\<forall>y \<in> set ys. height y \<le> b'"
    using ys(2) items by (metis in_set_conv_nth list_all2_conv_all_nth le_trans)
  then have "height (TList ys) \<le> b" by (simp add: b' fold_max_le)
  with TList ys(1) show ?thesis by (simp add: bold_entry_def)
qed (use assms in \<open>simp_all add: bold_entry_def\<close>)

lemma bold_entries_total:
  assumes "total_below call n" and "b \<le> n"
    and "\<forall>e \<in> set entries. height (fst (snd e)) \<le> b \<and> height (snd (snd e)) \<le> b"
  shows "\<exists>entries'. those (map (bold_entry call keyword) entries) = Some entries'
           \<and> map fst entries' = map fst entries
           \<and> (\<forall>e \<in> set entries'. height (fst (snd e)) \<le> b \<and> height (snd (snd e)) \<le> b)"
  using assms(3)
proof (induction entries)
  case Nil
  show ?case by simp
next
  case (Cons e entries)
  obtain key val new_val where e: "e = (key, val, new_val)" by (cases e)
  from Cons.prems e have "height val \<le> b" "height new_val \<le> b" by auto
  from bold_entry_total [OF assms(1,2) this, of keyword key]
  obtain val' new_val' where
    1: "bold_entry call keyword (key, val, new_val) = Some (key, val', new_val')"
       "height val' \<le> b" "height new_val' \<le> b" by blast
  from Cons obtain entries' where
    2: "those (map (bold_entry call keyword) entries) = Some entries'"
      "map fst entries' = map fst entries"
      "\<forall>e \<in> set entries'. height (fst (snd e)) \<le> b \<and> height (snd (snd e)) \<le> b" by auto
  show ?case using 1 2 e by simp
qed

lemma bold_kws_total:
  assumes "total_below call n" and "b \<le> n"
    and "\<forall>e \<in> set entries. height (fst (snd e)) \<le> b \<and> height (snd (snd e)) \<le> b"
  shows "\<exists>entries'. fold_option (\<lambda>keyword entries. those (map (bold_entry call keyword) entries))
             kws entries = Some entries'
           \<and> map fst entries' = map fst entries
           \<and> (\<forall>e \<in> set entries'. height (fst (snd e)) \<le> b \<and> height (snd (snd e)) \<le> b)"
  using assms(3)
proof (induction kws arbitrary: entries)
  case Nil
  then show ?case by simp
next
  case (Cons keyword kws)
  from bold_entries_total [OF assms(1,2) Cons.prems, of keyword]
  obtain es where es: "those (map (bold_entry call keyword) entries) = Some es"
    "map fst es = map fst entries"
    "\<forall>e \<in> set es. height (fst (snd e)) \<le> b \<and> height (snd (snd e)) \<le> b" by blast
  from Cons.IH [OF es(3)] es(1,2) show ?case by auto
qed

lemma make_bold_total: "total_below (make_bold n kws) n"
proof (induction n)
  case 0
  show ?case by (simp add: total_below_def)
next
  case (Suc n)
  show ?case unfolding total_below_def
  proof (intro allI impI)
    fix c assume c: "height (TDict c) \<le> Suc n"
    define b where "b = fold max (map (\<lambda>kv. height (snd kv)) c) 0"
    have hb: "height (TDict c) = Suc b" by (simp add: b_def)
    have bn: "b \<le> n" using c hb by simp
    let ?start = "map (\<lambda>(key, val). (key, val, val)) c"
    have "\<forall>kv \<in> set c. height (snd kv) \<le> b"
      using fold_max_le [of "map (\<lambda>kv. height (snd kv)) c" 0 b] by (simp add: b_def)
    then have start: "\<forall>e \<in> set ?start. height (fst (snd e)) \<le> b \<and> height (snd (snd e)) \<le> b"
      by auto
    from bold_kws_total [OF Suc bn start, of kws]
    obtain es where es: "fold_option (\<lambda>keyword entries.
          those (map (bold_entry (make_bold n kws) keyword) entries)) kws ?start = Some es"
      "\<forall>e \<in> set es. height (fst (snd e)) \<le> b \<and> height (snd (snd e)) \<le> b" by blast
    have "height (TDict (map (\<lambda>(key, val, new_val). (key, val)) es)) \<le> Suc b"
      using es(2) by (auto simp: fold_max_le)
    moreover have "height (TDict (map (\<lambda>(key, val, new_val). (key, new_val)) es)) \<le> Suc b"
      using es(2) by (auto simp: fold_max_le)
    ultimately show "\<exists>c' r. make_bold (Suc n) kws c = Some (c', r)
        \<and> height (TDict c') \<le> height (TDict c) \<and> height (TDict r) \<le> height (TDict c)"
      using es(1) hb by simp
  qed
qed

lemma make_given_keywords_bold_returns:
  "\<exists>new_dictionary. make_given_keywords_bold_in_a_dictionary dictionary kws = Some new_dictionary"
proof -
  define n where "n = height (TDict dictionary)"
  have "total_below (make_bold n kws) n"
    by (rule make_bold_total)
  then obtain c r where "make_bold n kws dictionary = Some (c, r)"
    unfolding total_below_def n_def by blast
  then have "map_option snd (make_bold n kws dictionary) = Some r"
    by simp
  then show ?thesis
    unfolding make_given_keywords_bold_in_a_dictionary_def n_def by blast
qed

lemmas bold_eval = make_given_keywords_bold_in_a_dictionary_def bold_entry_def bold_item_def
  re_sub_word.simps str_replace.simps startswith_def word_boundary_def is_word_char_def
  first_char_def char_isalnum_def char_is_ascii_alnum_def

text \<open>
  C6. The code does not do what the claim says. With two keywords, a string that is a value of
  the dictionary gets only the last keyword bold, since each keyword is substituted in the
  value as it was given. In a string that is an item of a list, a keyword is replaced wherever
  it occurs, inside a longer word too. A list that is an item of a list is not entered.
\<close>

theorem bold_keywords_on_the_code:
  "make_given_keywords_bold_in_a_dictionary
     [(''summary'', TStr ''Python and Java'')] [''Python'', ''Java'']
     = Some [(''summary'', TStr ''Python and **Java**'')]
   \<and> make_given_keywords_bold_in_a_dictionary
       [(''skills'', TList [TStr ''JavaScript''])] [''Java'']
     = Some [(''skills'', TList [TStr ''**Java**Script''])]
   \<and> make_given_keywords_bold_in_a_dictionary
       [(''skills'', TList [TList [TStr ''Java'']])] [''Java'']
     = Some [(''skills'', TList [TList [TStr ''Java'']])]"
  by (simp add: bold_eval)

subsection \<open>The working directory\<close>










subsection \<open>Overrides addressed by dotted paths\<close>

lemma dict_set_same: "map_of kvs k = Some c \<Longrightarrow> dict_set k c kvs = kvs"
  by (induction kvs) (auto split: if_splits)

lemma dict_set_twice: "dict_set k b (dict_set k a kvs) = dict_set k b kvs"
  by (induction kvs) auto

lemma list_index_less: "list_index xs i = Some j \<Longrightarrow> j < length xs"
  by (auto simp: list_index_def Let_def split: if_splits)

lemma list_index_length: "length ys = length xs \<Longrightarrow> list_index ys i = list_index xs i"
  by (simp add: list_index_def)

lemma list_index_update: "list_index (xs[j := a]) i = list_index xs i"
  by (simp add: list_index_def)

lemma map_of_dict_set_same: "map_of (dict_set k v kvs) k = Some v"
  by (simp add: map_of_dict_set)

text \<open>The assignment at the end of a path.\<close>

lemma set_item_raised: "set_item env u k a = Raised e t \<Longrightarrow> t = u"
  by (auto simp: set_item_def split: tree.splits option.splits)

lemma set_item_not_in_root: "set_item env u k a \<noteq> RaisedInRoot e t"
  by (auto simp: set_item_def split: tree.splits option.splits)

lemma set_item_returns_container: "set_item env u k a = Returned t \<Longrightarrow> is_container t"
  by (auto simp: set_item_def split: tree.splits option.splits)

lemma set_item_returns_from_container: "set_item env u k a = Returned t \<Longrightarrow> is_container u"
  by (auto simp: set_item_def split: tree.splits option.splits)

lemma set_item_again:
  "set_item env u k a = Returned u1 \<Longrightarrow>
   returned (set_item env u1 k b) = returned (set_item env u k b)"
  by (auto simp: set_item_def list_index_update dict_set_twice
      split: tree.splits option.splits)

lemma set_item_in_dict:
  "set_item env (TDict kvs) k a = Returned u1 \<Longrightarrow> u1 = TDict (dict_set k a kvs)"
  by (simp add: set_item_def)

text \<open>What a call at the end of a path does when the evaluation of its value keeps the tree.\<close>

lemma set_keys_leaf:
  assumes "evaluation_keeps env v d"
  shows "(\<exists>a. decode env v k d sub = Evaluated a
             \<and> set_keys env d k [] v sub = set_item env (if sub \<noteq> TNone then sub else d) k a)
         \<or> (decode env v k d sub = EvalRaises d
             \<and> set_keys env d k [] v sub = RaisedInRoot EvalRaised d)"
proof -
  from assms have "(\<exists>a. decode env v k d sub = Evaluated a)
      \<or> decode env v k d sub = EvalRaises d"
    unfolding evaluation_keeps_def by blast
  then show ?thesis by (auto simp: Let_def)
qed

lemma set_keys_leaf_Returned:
  assumes "evaluation_keeps env v d" and "set_keys env d k [] v sub = Returned t"
  shows "\<exists>a. set_item env (if sub \<noteq> TNone then sub else d) k a = Returned t"
  using set_keys_leaf [OF assms(1), of k sub] assms(2) by auto

lemma set_keys_step_list:
  "(if sub \<noteq> TNone then sub else d) = TList xs \<Longrightarrow>
   set_keys env d k (k' # ks) v sub =
     (case py_int env k of
        None \<Rightarrow> Raised (InvalidLiteral k) (TList xs)
      | Some i \<Rightarrow>
          (case list_index xs i of
             None \<Rightarrow> Raised IndexOutOfRange (TList xs)
           | Some j \<Rightarrow>
               after_existing (xs ! j) (\<lambda>t. TList (xs[j := t]))
                 (set_keys env d k' ks v (xs ! j))))"
  by (simp add: Let_def)

lemma set_keys_step_dict:
  "(if sub \<noteq> TNone then sub else d) = TDict kvs \<Longrightarrow>
   set_keys env d k (k' # ks) v sub =
     (case map_of kvs k of
        Some c \<Rightarrow>
          after_existing c (\<lambda>t. TDict (dict_set k t kvs)) (set_keys env d k' ks v c)
      | None \<Rightarrow>
          (case set_keys env d k' ks v (TDict []) of
             Returned t \<Rightarrow> Returned (TDict (dict_set k t kvs))
           | Raised e t \<Rightarrow> Raised e (TDict kvs)
           | other \<Rightarrow> other))"
  by (simp add: Let_def)

lemma set_keys_step_Returned:
  "set_keys env d k (k' # ks) v sub = Returned t \<Longrightarrow>
   is_container t \<and> is_container (if sub \<noteq> TNone then sub else d)"
  by (auto simp: Let_def after_existing_def
      split: option.splits tree.splits outcome.splits if_splits)

lemma set_keys_returns_container:
  assumes "evaluation_keeps env v d" and "set_keys env d k ks v sub = Returned t"
  shows "is_container t"
proof (cases ks)
  case Nil
  with set_keys_leaf_Returned [OF assms(1)] assms(2) show ?thesis
    by (blast dest: set_item_returns_container)
next
  case (Cons k' ks')
  with assms(2) show ?thesis by (simp only: set_keys_step_Returned)
qed

lemma set_keys_returns_from_container:
  assumes "evaluation_keeps env v d" and "set_keys env d k ks v sub = Returned t"
  shows "is_container (if sub \<noteq> TNone then sub else d)"
proof (cases ks)
  case Nil
  with set_keys_leaf_Returned [OF assms(1)] assms(2) show ?thesis
    by (blast dest: set_item_returns_from_container)
next
  case (Cons k' ks')
  with assms(2) show ?thesis by (simp only: set_keys_step_Returned)
qed

lemma set_keys_raised:
  "evaluation_keeps env v d \<Longrightarrow>
   (set_keys env d k ks v sub = Raised e t \<longrightarrow> t = (if sub \<noteq> TNone then sub else d))
   \<and> (set_keys env d k ks v sub = RaisedInRoot e t \<longrightarrow> t = d)"
proof (induction ks arbitrary: k sub e t d)
  case Nil
  from set_keys_leaf [OF Nil.prems, of k sub] show ?case
    by (auto dest: set_item_raised simp: set_item_not_in_root)
next
  case (Cons k' ks)
  define u where "u = (if sub \<noteq> TNone then sub else d)"
  have IH1: "\<And>k sub e t d. set_keys env d k ks v sub = Raised e t
      \<Longrightarrow> evaluation_keeps env v d \<Longrightarrow> t = (if sub \<noteq> TNone then sub else d)"
    using Cons.IH by blast
  have IH2: "\<And>k sub e t d. set_keys env d k ks v sub = RaisedInRoot e t
      \<Longrightarrow> evaluation_keeps env v d \<Longrightarrow> t = d"
    using Cons.IH by blast
  show ?case
  proof (cases u)
    case (TList xs)
    show ?thesis
      using TList Cons.prems
      by (auto simp: u_def Let_def after_existing_def list_index_less
          dest!: IH1 IH2 split: option.splits outcome.splits if_splits)
  next
    case (TDict kvs)
    show ?thesis
      using TDict Cons.prems
      by (auto simp: u_def Let_def after_existing_def dict_set_same
          dest!: IH1 IH2 split: option.splits outcome.splits if_splits)
  next
    case (TStr s)
    show ?thesis
      using TStr Cons.prems
      by (auto simp: u_def Let_def dest!: IH1 IH2
          split: option.splits outcome.splits if_splits)
  qed (auto simp: u_def Let_def split: if_splits)
qed

lemma returned_after_existing:
  "sub \<noteq> TNone \<Longrightarrow> returned (after_existing sub store r) = map_option store (returned r)"
  by (cases r) (auto simp: after_existing_def)

lemma after_existing_Returned:
  "after_existing sub store r = Returned u \<Longrightarrow> sub \<noteq> TNone \<and> (\<exists>t. r = Returned t \<and> u = store t)"
  by (cases r) (auto simp: after_existing_def split: if_splits)

lemma returned_fresh:
  "returned (case r of Returned t \<Rightarrow> Returned (f t) | Raised e t \<Rightarrow> Raised e u
             | other \<Rightarrow> other) = map_option f (returned r)"
  by (cases r) auto

lemma fresh_Returned:
  "(case r of Returned t \<Rightarrow> Returned (f t) | Raised e t \<Rightarrow> Raised e u | other \<Rightarrow> other)
     = Returned u1 \<Longrightarrow> \<exists>t. r = Returned t \<and> u1 = f t"
  by (cases r) auto

text \<open>
  The keys that a call passes on, joined by dots, split into the same keys again: the
  recursion on the list of keys is the recursion of the source on the joined string.
\<close>

lemma split_on_nonempty: "split_on c s \<noteq> []"
  by (induction s) (auto split: list.splits)

lemma split_on_no_separator: "k \<in> set (split_on c s) \<Longrightarrow> c \<notin> set k"
  by (induction s arbitrary: k) (auto split: list.splits if_splits)

lemma split_on_without: "c \<notin> set k \<Longrightarrow> split_on c k = [k]"
  by (induction k) auto

lemma split_on_append:
  "c \<notin> set k \<Longrightarrow> split_on c (k @ c # s) = k # split_on c s"
  by (induction k) (auto simp: split_on_nonempty split: list.splits)

lemma split_on_join:
  "ks \<noteq> [] \<Longrightarrow> (\<And>k. k \<in> set ks \<Longrightarrow> c \<notin> set k) \<Longrightarrow> split_on c (join_with [c] ks) = ks"
proof (induction ks)
  case Nil
  then show ?case by simp
next
  case (Cons k ks)
  show ?case
  proof (cases ks)
    case Nil
    with Cons.prems show ?thesis by (simp add: split_on_without)
  next
    case (Cons q qs)
    with Cons.IH Cons.prems show ?thesis by (simp add: split_on_append)
  qed
qed

lemma rest_of_the_keys:
  "tl (split_on c key) \<noteq> [] \<Longrightarrow>
   split_on c (join_with [c] (tl (split_on c key))) = tl (split_on c key)"
  by (rule split_on_join) (auto dest: list.set_sel(2) [OF split_on_nonempty] split_on_no_separator)

lemma not_evaluated_keeps:
  "\<not> (startswith val ''{'' \<and> endswith val ''}'') \<Longrightarrow>
   \<not> (startswith val ''['' \<and> endswith val '']'') \<Longrightarrow> evaluation_keeps env val dictionary"
  by (auto simp: evaluation_keeps_def decode_def)

lemma not_evaluated_is_fixed:
  "\<not> (startswith val ''{'' \<and> endswith val ''}'') \<Longrightarrow>
   \<not> (startswith val ''['' \<and> endswith val '']'') \<Longrightarrow> evaluation_is_fixed env val"
  by (auto simp: evaluation_is_fixed_def decode_def)

lemmas set_eval = set_or_update_a_value_def example_tree_def plain_py_env_def decode_def
  startswith_def endswith_def list_index_def after_existing_def set_item_def Let_def

text \<open>The second application of a path.\<close>

lemma set_keys_leaf_fixed:
  assumes "evaluation_is_fixed env v"
  shows "(\<exists>a. \<forall>d sub. set_keys env d k [] v sub
               = set_item env (if sub \<noteq> TNone then sub else d) k a)
         \<or> (\<forall>d sub. set_keys env d k [] v sub = RaisedInRoot EvalRaised d)"
proof -
  from assms have "(\<exists>a. \<forall>d sub. decode env v k d sub = Evaluated a)
      \<or> (\<forall>d sub. decode env v k d sub = EvalRaises d)"
    unfolding evaluation_is_fixed_def by blast
  then show ?thesis
  proof
    assume "\<exists>a. \<forall>d sub. decode env v k d sub = Evaluated a"
    then obtain a where "\<forall>d sub. decode env v k d sub = Evaluated a" by blast
    then have "\<forall>d sub. set_keys env d k [] v sub
        = set_item env (if sub \<noteq> TNone then sub else d) k a"
      by (simp add: Let_def)
    then show ?thesis by blast
  next
    assume "\<forall>d sub. decode env v k d sub = EvalRaises d"
    then have "\<forall>d sub. set_keys env d k [] v sub = RaisedInRoot EvalRaised d"
      by (simp add: Let_def)
    then show ?thesis by blast
  qed
qed

lemma set_keys_again:
  assumes "evaluation_keeps env v1 d"
    and "evaluation_is_fixed env v2"
    and "set_keys env d k ks v1 sub = Returned u1"
    and "(if sub' \<noteq> TNone then sub' else d') = u1"
  shows "returned (set_keys env d' k ks v2 sub') = returned (set_keys env d k ks v2 sub)"
  using assms(3,4)
proof (induction ks arbitrary: k sub sub' u1)
  case Nil
  have first: "set_keys env d k [] v1 sub = Returned u1" by (rule Nil.prems(1))
  have second: "(if sub' \<noteq> TNone then sub' else d') = u1" by (rule Nil.prems(2))
  from set_keys_leaf_Returned [OF assms(1) first] obtain a where
    a: "set_item env (if sub \<noteq> TNone then sub else d) k a = Returned u1"
    by blast
  from set_keys_leaf_fixed [OF assms(2), of k] show ?case
  proof
    assume "\<exists>b. \<forall>d sub. set_keys env d k [] v2 sub
        = set_item env (if sub \<noteq> TNone then sub else d) k b"
    then obtain b where b: "\<And>d sub. set_keys env d k [] v2 sub
        = set_item env (if sub \<noteq> TNone then sub else d) k b"
      by blast
    show ?thesis
      unfolding b second by (rule set_item_again [OF a])
  next
    assume r: "\<forall>d sub. set_keys env d k [] v2 sub = RaisedInRoot EvalRaised d"
    show ?thesis by (simp add: r del: set_keys.simps)
  qed
next
  case (Cons k' ks)
  have first: "set_keys env d k (k' # ks) v1 sub = Returned u1" by (rule Cons.prems(1))
  have second: "(if sub' \<noteq> TNone then sub' else d') = u1" by (rule Cons.prems(2))
  from set_keys_returns_from_container [OF assms(1) first]
  consider xs where "(if sub \<noteq> TNone then sub else d) = TList xs"
    | kvs where "(if sub \<noteq> TNone then sub else d) = TDict kvs"
    by (cases "if sub \<noteq> TNone then sub else d") auto
  then show ?case
  proof cases
    case 1
    from first obtain i j where i: "py_int env k = Some i" and j: "list_index xs i = Some j"
      and r: "after_existing (xs ! j) (\<lambda>t. TList (xs[j := t]))
                (set_keys env d k' ks v1 (xs ! j)) = Returned u1"
      unfolding set_keys_step_list [OF 1] by (auto split: option.splits)
    from after_existing_Returned [OF r] obtain t where c: "xs ! j \<noteq> TNone"
      and t: "set_keys env d k' ks v1 (xs ! j) = Returned t" and u1: "u1 = TList (xs[j := t])"
      by blast
    have jl: "j < length xs" using j by (rule list_index_less)
    have tn: "t \<noteq> TNone" using set_keys_returns_container [OF assms(1) t] by auto
    have IH: "returned (set_keys env d' k' ks v2 t) = returned (set_keys env d k' ks v2 (xs ! j))"
      by (rule Cons.IH [OF t]) (simp add: tn)
    have j': "list_index (xs[j := t]) i = Some j"
      using j by (simp add: list_index_update)
    have second': "(if sub' \<noteq> TNone then sub' else d') = TList (xs[j := t])"
      using second u1 by simp
    show ?thesis
      unfolding set_keys_step_list [OF 1] set_keys_step_list [OF second']
      by (simp add: i j j' jl returned_after_existing c tn IH)
  next
    case 2
    show ?thesis
    proof (cases "map_of kvs k")
      case (Some c)
      from first have r: "after_existing c (\<lambda>t. TDict (dict_set k t kvs))
                (set_keys env d k' ks v1 c) = Returned u1"
        unfolding set_keys_step_dict [OF 2] by (simp add: Some)
      from after_existing_Returned [OF r] obtain t where c: "c \<noteq> TNone"
        and t: "set_keys env d k' ks v1 c = Returned t" and u1: "u1 = TDict (dict_set k t kvs)"
        by blast
      have tn: "t \<noteq> TNone" using set_keys_returns_container [OF assms(1) t] by auto
      have IH: "returned (set_keys env d' k' ks v2 t) = returned (set_keys env d k' ks v2 c)"
        by (rule Cons.IH [OF t]) (simp add: tn)
      have second': "(if sub' \<noteq> TNone then sub' else d') = TDict (dict_set k t kvs)"
        using second u1 by simp
      show ?thesis
        unfolding set_keys_step_dict [OF 2] set_keys_step_dict [OF second']
        by (simp add: Some map_of_dict_set_same dict_set_twice returned_after_existing c tn IH)
    next
      case None
      from first have r:
        "(case set_keys env d k' ks v1 (TDict []) of
            Returned t \<Rightarrow> Returned (TDict (dict_set k t kvs))
          | Raised e t \<Rightarrow> Raised e (TDict kvs) | other \<Rightarrow> other) = Returned u1"
        unfolding set_keys_step_dict [OF 2] by (simp add: None)
      from fresh_Returned [OF r] obtain t where
        t: "set_keys env d k' ks v1 (TDict []) = Returned t" and u1: "u1 = TDict (dict_set k t kvs)"
        by blast
      have tn: "t \<noteq> TNone" using set_keys_returns_container [OF assms(1) t] by auto
      have IH: "returned (set_keys env d' k' ks v2 t) = returned (set_keys env d k' ks v2 (TDict []))"
        by (rule Cons.IH [OF t]) (simp add: tn)
      have second': "(if sub' \<noteq> TNone then sub' else d') = TDict (dict_set k t kvs)"
        using second u1 by simp
      show ?thesis
        unfolding set_keys_step_dict [OF 2] set_keys_step_dict [OF second']
        by (simp add: None map_of_dict_set_same dict_set_twice returned_after_existing
            returned_fresh tn IH)
    qed
  qed
qed

lemma set_keys_in_dict:
  assumes "evaluation_keeps env v d"
    and "set_keys env d k ks v sub = Returned u'"
    and "(if sub \<noteq> TNone then sub else d) = TDict kvs"
  shows "\<exists>t. u' = TDict (dict_set k t kvs)"
proof (cases ks)
  case Nil
  from set_keys_leaf_Returned [OF assms(1) assms(2) [unfolded Nil]] obtain a where
    "set_item env (TDict kvs) k a = Returned u'"
    unfolding assms(3) by blast
  then show ?thesis by (auto dest: set_item_in_dict)
next
  case (Cons k' ks')
  show ?thesis
  proof (cases "map_of kvs k")
    case None
    with assms(2) show ?thesis
      unfolding Cons set_keys_step_dict [OF assms(3)] by (auto dest: fresh_Returned)
  next
    case (Some c)
    with assms(2) show ?thesis
      unfolding Cons set_keys_step_dict [OF assms(3)] by (auto dest: after_existing_Returned)
  qed
qed

lemma set_keys_keeps_siblings:
  assumes "evaluation_keeps env v d"
    and "set_keys env d k ks v sub = Returned u'"
    and "k # ks = pre @ key # post"
    and "lookup env (if sub \<noteq> TNone then sub else d) pre = Some (TDict kvs)"
  shows "\<exists>kvs'. lookup env u' pre = Some (TDict kvs')
           \<and> (\<forall>k'. k' \<noteq> key \<longrightarrow> map_of kvs' k' = map_of kvs k') \<and> map_of kvs' key \<noteq> None"
  using assms(2,3,4)
proof (induction pre arbitrary: k ks sub u')
  case Nil
  then have k: "k = key" and u: "(if sub \<noteq> TNone then sub else d) = TDict kvs" by simp_all
  from set_keys_in_dict [OF assms(1) Nil.prems(1) u] obtain t where
    "u' = TDict (dict_set k t kvs)"
    by blast
  then show ?case by (simp add: k map_of_dict_set)
next
  case (Cons p pre)
  then have k: "k = p" and ks: "ks = pre @ key # post" by simp_all
  have "ks \<noteq> []" using ks by simp
  then obtain k' ks' where ks': "ks = k' # ks'" by (cases ks) auto
  have first: "set_keys env d k (k' # ks') v sub = Returned u'"
    using Cons.prems(1) ks' by simp
  have path: "k' # ks' = pre @ key # post" using ks ks' by simp
  have look: "lookup env (if sub \<noteq> TNone then sub else d) (p # pre) = Some (TDict kvs)"
    by (rule Cons.prems(3))
  from set_keys_returns_from_container [OF assms(1) first]
  consider xs where "(if sub \<noteq> TNone then sub else d) = TList xs"
    | kvs0 where "(if sub \<noteq> TNone then sub else d) = TDict kvs0"
    by (cases "if sub \<noteq> TNone then sub else d") auto
  then show ?case
  proof cases
    case 1
    from look obtain i j where i: "py_int env p = Some i" and j: "list_index xs i = Some j"
      and c: "lookup env (xs ! j) pre = Some (TDict kvs)"
      unfolding 1 by (auto split: option.splits)
    from first have r: "after_existing (xs ! j) (\<lambda>t. TList (xs[j := t]))
        (set_keys env d k' ks' v (xs ! j)) = Returned u'"
      unfolding set_keys_step_list [OF 1] by (simp add: k i j)
    from after_existing_Returned [OF r] obtain t where cn: "xs ! j \<noteq> TNone"
      and t: "set_keys env d k' ks' v (xs ! j) = Returned t" and u': "u' = TList (xs[j := t])"
      by blast
    have "lookup env (if xs ! j \<noteq> TNone then xs ! j else d) pre = Some (TDict kvs)"
      using c cn by simp
    from Cons.IH [OF t path this] obtain kvs' where
      "lookup env t pre = Some (TDict kvs')"
      "\<forall>k'. k' \<noteq> key \<longrightarrow> map_of kvs' k' = map_of kvs k'" "map_of kvs' key \<noteq> None"
      by blast
    moreover have "lookup env u' (p # pre) = lookup env t pre"
      using i j list_index_less [OF j] by (simp add: u' list_index_update)
    ultimately show ?thesis by simp
  next
    case 2
    from look obtain c0 where c0: "map_of kvs0 p = Some c0"
      and c: "lookup env c0 pre = Some (TDict kvs)"
      unfolding 2 by (auto split: option.splits)
    from first have r: "after_existing c0 (\<lambda>t. TDict (dict_set k t kvs0))
        (set_keys env d k' ks' v c0) = Returned u'"
      unfolding set_keys_step_dict [OF 2] by (simp add: k c0)
    from after_existing_Returned [OF r] obtain t where cn: "c0 \<noteq> TNone"
      and t: "set_keys env d k' ks' v c0 = Returned t" and u': "u' = TDict (dict_set k t kvs0)"
      by blast
    have "lookup env (if c0 \<noteq> TNone then c0 else d) pre = Some (TDict kvs)"
      using c cn by simp
    from Cons.IH [OF t path this] obtain kvs' where
      "lookup env t pre = Some (TDict kvs')"
      "\<forall>k'. k' \<noteq> key \<longrightarrow> map_of kvs' k' = map_of kvs k'" "map_of kvs' key \<noteq> None"
      by blast
    moreover have "lookup env u' (p # pre) = lookup env t pre"
      by (simp add: u' k map_of_dict_set_same)
    ultimately show ?thesis by simp
  qed
qed

text \<open>
  C7, as the code has it. When \<open>set_or_update_a_value(dictionary, key, value)\<close> raises,
  whatever the exception (a key of a list that is no integer, an index out of range, an object
  that takes no item, a value that does not evaluate), and the evaluation of the value has
  changed no object, \<open>dictionary\<close> is left as it was before the call: the dictionaries made
  for the missing keys of the path were never stored in it. A value that is not written in
  braces or brackets is not evaluated at all.
\<close>

theorem failed_override_leaves_the_tree:
  assumes "raised (set_or_update_a_value env dictionary key val) = Some (e, t)"
    and "evaluation_keeps env val dictionary"
  shows "t = dictionary"
proof -
  define k where "k = hd (split_on (CHR ''.'') key)"
  define ks where "ks = tl (split_on (CHR ''.'') key)"
  have o: "set_or_update_a_value env dictionary key val = set_keys env dictionary k ks val TNone"
    by (simp add: set_or_update_a_value_def k_def ks_def Let_def)
  from assms(1) consider "set_keys env dictionary k ks val TNone = Raised e t"
    | "set_keys env dictionary k ks val TNone = RaisedInRoot e t"
    unfolding o by (cases "set_keys env dictionary k ks val TNone") auto
  then show "t = dictionary"
  proof cases
    case 1
    with set_keys_raised [OF assms(2), of k ks TNone e t] show ?thesis by simp
  next
    case 2
    with set_keys_raised [OF assms(2), of k ks TNone e t] show ?thesis by simp
  qed
qed

theorem failed_override_leaves_the_tree_witness:
  "raised (set_or_update_a_value plain_py_env example_tree ''cv.new.deep'' ''{bad}'')
     = Some (EvalRaised, example_tree)
   \<and> evaluation_keeps plain_py_env ''{bad}'' example_tree
   \<and> raised (set_or_update_a_value plain_py_env example_tree ''cv.sections.5'' ''x'')
     = Some (IndexOutOfRange, example_tree)
   \<and> evaluation_keeps plain_py_env ''x'' example_tree"
proof -
  have a: "raised (set_or_update_a_value plain_py_env example_tree ''cv.new.deep'' ''{bad}'')
      = Some (EvalRaised, TDict [(''cv'', TDict [(''name'', TStr ''Ada''), (''phone'', TNone),
          (''sections'', TList [TStr ''a'', TStr ''b''])])])"
    by (simp add: set_eval)
  have ka: "evaluation_keeps plain_py_env ''{bad}'' example_tree"
    by (simp add: evaluation_keeps_def decode_def plain_py_env_def startswith_def endswith_def)
  have b: "raised (set_or_update_a_value plain_py_env example_tree ''cv.sections.5'' ''x'')
      = Some (IndexOutOfRange, TDict [(''cv'', TDict [(''name'', TStr ''Ada''),
          (''phone'', TNone), (''sections'', TList [TStr ''a'', TStr ''b''])])])"
    by (simp add: set_eval)
  have kb: "evaluation_keeps plain_py_env ''x'' example_tree"
    by (simp add: evaluation_keeps_def decode_def plain_py_env_def startswith_def endswith_def)
  show ?thesis
    using failed_override_leaves_the_tree [OF a ka] failed_override_leaves_the_tree [OF b kb]
      a b ka kb
    by simp
qed

text \<open>
  The claim as stated fails: the value \<open>[dictionary.clear(), 1/0]\<close> is written in brackets,
  so it is evaluated; the evaluation empties \<open>dictionary\<close> and then raises, and the
  instruction fails with the tree emptied.
\<close>

theorem failed_override_counterexample:
  "raised (set_or_update_a_value scoped_py_env example_tree ''cv.name''
       ''[dictionary.clear(), 1/0]'')
     = Some (EvalRaised, TDict [])
   \<and> example_tree \<noteq> TDict []"
  by (simp add: set_or_update_a_value_def example_tree_def scoped_py_env_def decode_def
      startswith_def endswith_def list_index_def after_existing_def set_item_def Let_def)

text \<open>
  C8, as the code has it, for two values whose evaluation leaves the tree out: that of \<open>v1\<close>
  changes no object, and that of \<open>v2\<close> gives the same on every tree and changes none. When
  \<open>set_or_update_a_value(dictionary, key, v1)\<close> returns a tree, applying the same key with
  \<open>v2\<close> to that tree gives what applying it to the original dictionary gives: the same tree,
  or no tree in both cases. And every dictionary that the path goes through keeps all its
  other keys with their values, and has the key of the path afterwards.
\<close>

theorem override_overwrites_and_keeps_siblings:
  assumes "set_or_update_a_value env dictionary key v1 = Returned t1"
    and "evaluation_keeps env v1 dictionary"
    and "evaluation_is_fixed env v2"
  shows "returned (set_or_update_a_value env t1 key v2)
           = returned (set_or_update_a_value env dictionary key v2)
    \<and> (\<forall>pre k post kvs.
          split_on (CHR ''.'') key = pre @ k # post \<and> lookup env dictionary pre = Some (TDict kvs)
          \<longrightarrow> (\<exists>kvs'. lookup env t1 pre = Some (TDict kvs')
                 \<and> (\<forall>k'. k' \<noteq> k \<longrightarrow> map_of kvs' k' = map_of kvs k')
                 \<and> map_of kvs' k \<noteq> None))"
proof -
  define keys where "keys = split_on (CHR ''.'') key"
  have ne: "keys \<noteq> []" by (simp add: keys_def split_on_nonempty)
  have first: "set_keys env dictionary (hd keys) (tl keys) v1 TNone = Returned t1"
    using assms(1) by (simp add: set_or_update_a_value_def keys_def Let_def)
  have again: "returned (set_keys env t1 (hd keys) (tl keys) v2 TNone)
      = returned (set_keys env dictionary (hd keys) (tl keys) v2 TNone)"
    by (rule set_keys_again [OF assms(2) assms(3) first]) simp
  have siblings: "\<exists>kvs'. lookup env t1 pre = Some (TDict kvs')
        \<and> (\<forall>k'. k' \<noteq> k \<longrightarrow> map_of kvs' k' = map_of kvs k') \<and> map_of kvs' k \<noteq> None"
    if "keys = pre @ k # post" and "lookup env dictionary pre = Some (TDict kvs)"
    for pre k post kvs
  proof (rule set_keys_keeps_siblings [OF assms(2) first])
    show "hd keys # tl keys = pre @ k # post" using that(1) ne by simp
    show "lookup env (if TNone \<noteq> TNone then TNone else dictionary) pre = Some (TDict kvs)"
      using that(2) by simp
  qed
  show ?thesis
    using again siblings
    by (simp add: set_or_update_a_value_def keys_def [symmetric] Let_def)
qed

theorem override_overwrites_and_keeps_siblings_witness:
  "set_or_update_a_value plain_py_env example_tree ''cv.social.github'' ''ada''
     = Returned (TDict [(''cv'', TDict [(''name'', TStr ''Ada''), (''phone'', TNone),
         (''sections'', TList [TStr ''a'', TStr ''b'']),
         (''social'', TDict [(''github'', TStr ''ada'')])])])
   \<and> evaluation_keeps plain_py_env ''ada'' example_tree
   \<and> evaluation_is_fixed plain_py_env ''{}''
   \<and> returned (set_or_update_a_value plain_py_env
         (TDict [(''cv'', TDict [(''name'', TStr ''Ada''), (''phone'', TNone),
           (''sections'', TList [TStr ''a'', TStr ''b'']),
           (''social'', TDict [(''github'', TStr ''ada'')])])])
         ''cv.social.github'' ''{}'')
     = returned (set_or_update_a_value plain_py_env example_tree ''cv.social.github'' ''{}'')
   \<and> returned (set_or_update_a_value plain_py_env example_tree ''cv.social.github'' ''{}'')
     = Some (TDict [(''cv'', TDict [(''name'', TStr ''Ada''), (''phone'', TNone),
         (''sections'', TList [TStr ''a'', TStr ''b'']),
         (''social'', TDict [(''github'', TDict [])])])])"
proof -
  have a: "set_or_update_a_value plain_py_env example_tree ''cv.social.github'' ''ada''
      = Returned (TDict [(''cv'', TDict [(''name'', TStr ''Ada''), (''phone'', TNone),
          (''sections'', TList [TStr ''a'', TStr ''b'']),
          (''social'', TDict [(''github'', TStr ''ada'')])])])"
    by (simp add: set_eval)
  have k: "evaluation_keeps plain_py_env ''ada'' example_tree"
    by (simp add: evaluation_keeps_def decode_def plain_py_env_def startswith_def endswith_def)
  have f: "evaluation_is_fixed plain_py_env ''{}''"
    by (simp add: evaluation_is_fixed_def decode_def plain_py_env_def startswith_def
        endswith_def)
  have b: "returned (set_or_update_a_value plain_py_env example_tree ''cv.social.github''
        ''{}'')
      = Some (TDict [(''cv'', TDict [(''name'', TStr ''Ada''), (''phone'', TNone),
          (''sections'', TList [TStr ''a'', TStr ''b'']),
          (''social'', TDict [(''github'', TDict [])])])])"
    by (simp add: set_eval)
  from override_overwrites_and_keeps_siblings [OF a k f]
  have c: "returned (set_or_update_a_value plain_py_env
        (TDict [(''cv'', TDict [(''name'', TStr ''Ada''), (''phone'', TNone),
          (''sections'', TList [TStr ''a'', TStr ''b'']),
          (''social'', TDict [(''github'', TStr ''ada'')])])])
        ''cv.social.github'' ''{}'')
      = returned (set_or_update_a_value plain_py_env example_tree ''cv.social.github''
          ''{}'')"
    by (rule conjunct1)
  show ?thesis using a b c k f by simp
qed

text \<open>
  The claim as stated fails. The value \<open>[len(dictionary)]\<close> evaluates to the number of keys
  that \<open>dictionary\<close> has when the instruction is applied: applied to the empty dictionary it
  gives \<open>[0]\<close> under the key, and applied after another instruction for the same key it gives
  \<open>[1]\<close>. The value \<open>[dictionary.clear()]\<close> empties \<open>dictionary\<close> before the assignment, and
  the key \<open>b\<close> beside the path is gone.
\<close>

theorem override_counterexample:
  "set_or_update_a_value scoped_py_env (TDict []) ''a'' ''x''
     = Returned (TDict [(''a'', TStr ''x'')])
   \<and> set_or_update_a_value scoped_py_env (TDict [(''a'', TStr ''x'')]) ''a''
       ''[len(dictionary)]''
     = Returned (TDict [(''a'', TList [TInt 1])])
   \<and> set_or_update_a_value scoped_py_env (TDict []) ''a'' ''[len(dictionary)]''
     = Returned (TDict [(''a'', TList [TInt 0])])
   \<and> set_or_update_a_value scoped_py_env (TDict [(''b'', TInt 1)]) ''a''
       ''[dictionary.clear()]''
     = Returned (TDict [(''a'', TList [TNone])])"
  by (simp add: set_or_update_a_value_def scoped_py_env_def decode_def
      startswith_def endswith_def set_item_def Let_def)

subsection \<open>The errors of a validation\<close>














text \<open>
  C2. The code does not do what the claim says: \<open>parse_validation_errors\<close> raises on an
  error whose location has an element with two of the unwanted texts in it. For
  \<open>list[int]\<close>, which contains \<open>list\<close> and \<open>int\<close>, \<open>new_location.remove\<close> is called
  twice, and the second call finds nothing to remove.
\<close>

theorem parse_validation_errors_raises:
  "parse_validation_errors [two_markers_error]
     = Inl (ValueError [''list.remove(x): x not in list''])"
  by (simp add: parse_validation_errors_def two_markers_error_def clean_location_def
      str_of_loc_def unwanted_locations_def list_remove_def startswith_def)

end
